theory Spec2Isabelle
  imports Complex_Main "HOL-Library.Product_Lexorder"
begin

section \<open>Shared vocabulary\<close>

text \<open>
  The three Lambda handlers of the repository talk to three managed services: an S3
  bucket, a Kinesis stream and a DynamoDB table. Each service is modelled by the state
  a handler can observe through the calls it makes (\<open>get_object\<close>, \<open>put_record\<close>,
  \<open>get_item\<close>, \<open>put_item\<close>, \<open>put_object\<close>), together with a trace of the calls that
  change it. A Python exception is a value of type \<open>error\<close>; a call that may raise
  returns \<open>error + 'a\<close>, with \<open>Inl\<close> for the exception.
\<close>

datatype error =
    Base64Error
  | UnicodeDecodeError
  | JSONDecodeError
  | TypeError
  | KeyError string
  | ValueError
  | ClientError

text \<open>The dictionaries the handlers return, as lists of key/value pairs.\<close>

type_synonym response = "(string \<times> string) list"

text \<open>
  A JSON document. It also stands for the Python value that \<^verbatim>\<open>json.loads\<close> makes of it
  (\<open>JNull\<close> is \<^verbatim>\<open>None\<close>, \<open>JInt\<close> an \<^verbatim>\<open>int\<close>, \<open>JReal\<close> a \<^verbatim>\<open>float\<close>, \<open>JString\<close> a
  \<^verbatim>\<open>str\<close>, \<open>JArray\<close> a \<^verbatim>\<open>list\<close>, \<open>JObject\<close> a \<^verbatim>\<open>dict\<close> given by its items in order). A
  number written with a fraction or an exponent is a \<open>JReal\<close>; its rational is the value
  written, and no arithmetic is done on it.
\<close>

datatype json =
    JNull
  | JBool bool
  | JInt int
  | JReal rat
  | JString string
  | JArray "json list"
  | JObject "(string \<times> json) list"

section \<open>Merger: \<^verbatim>\<open>lambda_functions/consumer/app.py\<close>\<close>

text \<open>A DynamoDB item and a decoded payload: Python dictionaries with string keys.\<close>

type_synonym item = "string \<rightharpoonup> json"

text \<open>
  What \<^verbatim>\<open>json.loads\<close> returns: a dictionary, or some other Python value (a list, a string,
  a number, a boolean or \<^verbatim>\<open>None\<close>). Of a member name written twice in an object the
  last value is kept.
\<close>

datatype json_value = Json_object item | Json_other

fun json_loads :: "json \<Rightarrow> json_value" where
  "json_loads (JObject members) = Json_object (map_of (rev members))"
| "json_loads v = Json_other"

text \<open>
  The \<^verbatim>\<open>data\<close> field of a Kinesis event record, classified by what the three library
  calls of the handler make of it: \<^verbatim>\<open>base64.b64decode\<close> raises, \<^verbatim>\<open>.decode('utf-8')\<close>
  raises, \<^verbatim>\<open>json.loads\<close> raises, or the data is the text of a JSON document.
\<close>

datatype kinesis_data =
    Invalid_base64
  | Invalid_utf8
  | Invalid_json
  | Json_text json

text \<open>
  The table, keyed by the attribute \<open>id\<close>: \<open>contents\<close> maps a key value to the item
  stored under it, \<open>put_calls\<close> lists the items of the \<^verbatim>\<open>put_item\<close> calls that
  succeeded, oldest first, and \<open>key_type\<close> is the type the table declares for \<open>id\<close>
  (a string or a number), which the handler does not choose.
\<close>

datatype key_type = String_key | Number_key

record table =
  contents :: "json \<rightharpoonup> item"
  put_calls :: "item list"
  key_type :: key_type

text \<open>
  Two checks stand between the handler and the table. The serializer of the table
  resource raises a \<^verbatim>\<open>TypeError\<close> on a Python \<^verbatim>\<open>float\<close>, at any depth of a value.
  The service raises a \<^verbatim>\<open>ClientError\<close> on a key that has not the declared type or is
  the empty string. What else the service may refuse (an item or a key over its size
  limits, a request over its throughput) is not modelled: a statement about a stored
  record is made of the records that the handler writes without logging an error.
\<close>

fun storable :: "json \<Rightarrow> bool" where
  "storable (JReal x) = False"
| "storable (JArray xs) = list_all storable xs"
| "storable (JObject members) = list_all storable (map snd members)"
| "storable v = True"

fun valid_key :: "key_type \<Rightarrow> json \<Rightarrow> bool" where
  "valid_key String_key (JString s) = (s \<noteq> [])"
| "valid_key Number_key (JInt n) = True"
| "valid_key kt v = False"

text \<open>\<^verbatim>\<open>json.loads(base64.b64decode(record['kinesis']['data']).decode('utf-8'))\<close>\<close>

fun decode_payload :: "kinesis_data \<Rightarrow> error + json_value" where
  "decode_payload Invalid_base64 = Inl Base64Error"
| "decode_payload Invalid_utf8 = Inl UnicodeDecodeError"
| "decode_payload Invalid_json = Inl JSONDecodeError"
| "decode_payload (Json_text doc) = Inr (json_loads doc)"

text \<open>
  \<^verbatim>\<open>payload['trip_id']\<close>: a \<^verbatim>\<open>KeyError\<close> when the dictionary has no such key, a
  \<^verbatim>\<open>TypeError\<close> when the payload is not a dictionary.
\<close>

fun subscript :: "json_value \<Rightarrow> string \<Rightarrow> error + json" where
  "subscript (Json_object d) k = (case d k of None \<Rightarrow> Inl (KeyError k) | Some v \<Rightarrow> Inr v)"
| "subscript Json_other k = Inl TypeError"

text \<open>
  \<^verbatim>\<open>table.get_item(Key={'id': trip_id}).get('Item', {})\<close>: the key is serialized, then
  checked by the service; an absent item gives the empty dictionary.
\<close>

definition get_item :: "table \<Rightarrow> json \<Rightarrow> error + item" where
  "get_item tbl trip_id =
     (if \<not> storable trip_id then Inl TypeError
      else if \<not> valid_key (key_type tbl) trip_id then Inl ClientError
      else Inr (case contents tbl trip_id of None \<Rightarrow> Map.empty | Some it \<Rightarrow> it))"

text \<open>
  \<^verbatim>\<open>table.put_item(Item=merged_item)\<close>: every value of the item is serialized, the key
  attribute is checked, and the item overwrites whatever is stored under its own \<open>id\<close>.
\<close>

definition put_item :: "table \<Rightarrow> item \<Rightarrow> error + table" where
  "put_item tbl it =
     (if \<exists>v\<in>ran it. \<not> storable v then Inl TypeError
      else case it ''id'' of
             None \<Rightarrow> Inl ClientError
           | Some k \<Rightarrow>
               if valid_key (key_type tbl) k
               then Inr (tbl\<lparr>contents := (contents tbl)(k \<mapsto> it),
                             put_calls := put_calls tbl @ [it]\<rparr>)
               else Inl ClientError)"

text \<open>
  \<^verbatim>\<open>{**existing_item, **payload}\<close>: the fields of both dictionaries, the payload's value
  winning where both have a field. Unpacking a payload that is not a dictionary raises.
\<close>

fun merge_dicts :: "item \<Rightarrow> json_value \<Rightarrow> error + item" where
  "merge_dicts existing_item (Json_object d) = Inr (existing_item ++ d)"
| "merge_dicts existing_item Json_other = Inl TypeError"

text \<open>
  The body of the \<^verbatim>\<open>try\<close> block for one record: decode, read \<open>trip_id\<close>, fetch the
  existing item, merge, force \<open>id\<close>, write back.
\<close>

definition process_record :: "table \<Rightarrow> kinesis_data \<Rightarrow> error + table" where
  "process_record tbl data =
     (case decode_payload data of
        Inl e \<Rightarrow> Inl e
      | Inr payload \<Rightarrow>
          (case subscript payload ''trip_id'' of
             Inl e \<Rightarrow> Inl e
           | Inr trip_id \<Rightarrow>
               (case get_item tbl trip_id of
                  Inl e \<Rightarrow> Inl e
                | Inr existing_item \<Rightarrow>
                    (case merge_dicts existing_item payload of
                       Inl e \<Rightarrow> Inl e
                     | Inr merged_item \<Rightarrow> put_item tbl (merged_item(''id'' \<mapsto> trip_id))))))"

text \<open>
  The \<^verbatim>\<open>for\<close> loop with its \<^verbatim>\<open>try\<close>/\<^verbatim>\<open>except Exception\<close>: a record that raises is logged
  and the loop goes on with the table as the failed record left it. The second component
  is the list of errors logged so far.
\<close>

fun process_records ::
  "table \<times> error list \<Rightarrow> kinesis_data list \<Rightarrow> table \<times> error list" where
  "process_records st [] = st"
| "process_records (tbl, logged) (r # rs) =
     (case process_record tbl r of
        Inl e \<Rightarrow> process_records (tbl, logged @ [e]) rs
      | Inr tbl' \<Rightarrow> process_records (tbl', logged) rs)"

definition merger_handler ::
  "table \<Rightarrow> kinesis_data list \<Rightarrow> (table \<times> error list) \<times> response" where
  "merger_handler tbl records = (process_records (tbl, []) records, [(''status'', ''ok'')])"

text \<open>The table a batch leaves behind.\<close>

definition table_after :: "table \<Rightarrow> kinesis_data list \<Rightarrow> table" where
  "table_after tbl records = fst (fst (merger_handler tbl records))"

text \<open>
  The key discipline of the table: an item is stored under the value of its own \<open>id\<close>
  attribute.
\<close>

definition id_invariant :: "table \<Rightarrow> bool" where
  "id_invariant tbl = (\<forall>k it. contents tbl k = Some it \<longrightarrow> it ''id'' = Some k)"

text \<open>
  The \<open>trip_id\<close> a record carries, when it decodes to a dictionary that has one; and the
  \<open>trip_id\<close>s of a batch.
\<close>

definition trip_id_of :: "kinesis_data \<Rightarrow> json option" where
  "trip_id_of r = (case decode_payload r of Inr (Json_object d) \<Rightarrow> d ''trip_id'' | _ \<Rightarrow> None)"

definition trip_ids :: "kinesis_data list \<Rightarrow> json set" where
  "trip_ids records = {k. \<exists>r\<in>set records. trip_id_of r = Some k}"

text \<open>
  The value a field has in the most recent dictionary of a list that has the field
  (the list is in arrival order, oldest first).
\<close>

fun last_write :: "item list \<Rightarrow> string \<Rightarrow> json option" where
  "last_write [] f = None"
| "last_write (p # ps) f = (case last_write ps f of None \<Rightarrow> p f | Some v \<Rightarrow> Some v)"

text \<open>The item a record with \<open>trip_id\<close> \<open>k\<close> and dictionary \<open>d\<close> writes: an auxiliary
  of the proofs.\<close>

definition merged_with :: "table \<Rightarrow> json \<Rightarrow> item \<Rightarrow> item" where
  "merged_with tbl k d =
     ((case contents tbl k of None \<Rightarrow> Map.empty | Some it \<Rightarrow> it) ++ d)(''id'' \<mapsto> k)"

section \<open>Ingestor: \<^verbatim>\<open>lambda_functions/producer/app.py\<close>\<close>

text \<open>
  A row as \<^verbatim>\<open>csv.DictReader\<close> yields it for a line of the file: a dictionary, given by
  its items in order. The key \<open>Some c\<close> is the column \<open>c\<close> of the header; the key \<open>None\<close>
  is the rest key, under which the reader puts the list of the surplus cells of a line
  longer than the header. A value is the text of a cell (\<open>JString\<close>), \<^verbatim>\<open>None\<close> (\<open>JNull\<close>)
  for a cell that a line shorter than the header does not have, or the list of the
  surplus cells (\<open>JArray\<close>).
\<close>

type_synonym row = "(string option \<times> json) list"

text \<open>An S3 notification of the event: \<^verbatim>\<open>record['s3']['bucket']['name']\<close> and
  \<^verbatim>\<open>record['s3']['object']['key']\<close>.\<close>

record s3_record =
  bucket_name :: string
  object_key :: string

text \<open>
  The bucket as the handler reads it: the rows of the object stored under a bucket name
  and key, or nothing when \<^verbatim>\<open>get_object\<close>, the decoding of the body or the CSV reader
  raises.
\<close>

type_synonym s3_objects = "string \<times> string \<rightharpoonup> row list"

text \<open>
  The keyword arguments of \<^verbatim>\<open>kinesis_client.put_record\<close>. The payload has an abstract type
  \<open>'b\<close>: it is whatever the serializer \<^verbatim>\<open>json.dumps\<close>, a parameter of the model, returns.
\<close>

record 'b put_request =
  StreamName :: string
  Data :: 'b
  PartitionKey :: json

text \<open>
  What the handler's calls change or leave behind: the \<^verbatim>\<open>get_object\<close> calls made, the
  records appended to the stream (oldest first), and the errors logged by the
  \<^verbatim>\<open>except\<close> clause, each with the key of the file being processed.
\<close>

record 'b world =
  get_calls :: "(string \<times> string) list"
  stream :: "'b put_request list"
  error_log :: "(string \<times> error) list"

text \<open>
  \<^verbatim>\<open>kinesis_client.put_record(...)\<close>: the service accepts the request and appends the
  record, or the call raises. Which requests are accepted is a parameter \<open>accepts\<close>.
\<close>

definition put_record ::
  "('b put_request \<Rightarrow> bool) \<Rightarrow> 'b world \<Rightarrow> 'b put_request \<Rightarrow> error + 'b world" where
  "put_record accepts w req =
     (if accepts req then Inr (w\<lparr>stream := stream w @ [req]\<rparr>) else Inl ClientError)"

text \<open>
  What the client library and the service require of a partition key, whatever else they
  may refuse: a string of 1 to 256 characters. A key that is \<^verbatim>\<open>None\<close> is refused before
  the request is sent.
\<close>

definition partition_key_accepted :: "'b put_request \<Rightarrow> bool" where
  "partition_key_accepted req =
     (case PartitionKey req of
        JString s \<Rightarrow> 1 \<le> length s \<and> length s \<le> 256
      | _ \<Rightarrow> False)"

text \<open>
  \<^verbatim>\<open>row.get('trip_id', 'unknown')\<close>: the default is returned only when the dictionary has
  no such key; a key whose value is \<^verbatim>\<open>None\<close> gives \<^verbatim>\<open>None\<close>.
\<close>

definition row_get :: "row \<Rightarrow> string \<Rightarrow> json \<Rightarrow> json" where
  "row_get row k dflt = (case map_of row (Some k) of None \<Rightarrow> dflt | Some v \<Rightarrow> v)"

text \<open>
  The inner loop \<^verbatim>\<open>for row in csv_reader\<close>, with its counter \<open>row_count\<close>. An exception
  of \<^verbatim>\<open>put_record\<close> leaves the loop: the result is the exception together with the world
  as the rows before it left it.
\<close>

fun send_rows ::
  "string \<Rightarrow> (row \<Rightarrow> 'b) \<Rightarrow> ('b put_request \<Rightarrow> bool) \<Rightarrow> 'b world \<Rightarrow> nat \<Rightarrow> row list
     \<Rightarrow> error option \<times> 'b world \<times> nat" where
  "send_rows stream_name json_dumps accepts w row_count [] = (None, w, row_count)"
| "send_rows stream_name json_dumps accepts w row_count (row # rows) =
     (let row_count = row_count + 1;
          trip_id = row_get row ''trip_id'' (JString ''unknown'')
      in case put_record accepts w
                \<lparr>StreamName = stream_name, Data = json_dumps row, PartitionKey = trip_id\<rparr> of
           Inl e \<Rightarrow> (Some e, w, row_count)
         | Inr w' \<Rightarrow> send_rows stream_name json_dumps accepts w' row_count rows)"

text \<open>
  The body of the outer loop for one notification: the \<^verbatim>\<open>try\<close> block (fetch the object,
  read its rows, send them) and its \<^verbatim>\<open>except Exception\<close>, which logs the error with the
  key of the file.
\<close>

definition process_file ::
  "string \<Rightarrow> s3_objects \<Rightarrow> (row \<Rightarrow> 'b) \<Rightarrow> ('b put_request \<Rightarrow> bool) \<Rightarrow> 'b world \<Rightarrow> s3_record
     \<Rightarrow> 'b world" where
  "process_file stream_name s3 json_dumps accepts w record =
     (let w = w\<lparr>get_calls := get_calls w @ [(bucket_name record, object_key record)]\<rparr>
      in case s3 (bucket_name record, object_key record) of
           None \<Rightarrow> w\<lparr>error_log := error_log w @ [(object_key record, ClientError)]\<rparr>
         | Some rows \<Rightarrow>
             (case send_rows stream_name json_dumps accepts w 0 rows of
                (None, w', row_count) \<Rightarrow> w'
              | (Some e, w', row_count) \<Rightarrow>
                  w'\<lparr>error_log := error_log w' @ [(object_key record, e)]\<rparr>))"

text \<open>
  The handler. \<open>env\<close> is \<^verbatim>\<open>os.environ.get('KINESIS_STREAM_NAME')\<close>: \<open>None\<close> when the
  variable is not set. \<^verbatim>\<open>if not stream_name\<close> holds for \<open>None\<close> and for the empty
  string.
\<close>

definition ingestor_handler ::
  "string option \<Rightarrow> s3_objects \<Rightarrow> (row \<Rightarrow> 'b) \<Rightarrow> ('b put_request \<Rightarrow> bool) \<Rightarrow> 'b world
     \<Rightarrow> s3_record list \<Rightarrow> 'b world \<times> response" where
  "ingestor_handler env s3 json_dumps accepts w records =
     (case env of
        None \<Rightarrow> (w, [(''status'', ''error''), (''message'', ''Stream name not configured'')])
      | Some stream_name \<Rightarrow>
          if stream_name = []
          then (w, [(''status'', ''error''), (''message'', ''Stream name not configured'')])
          else (foldl (process_file stream_name s3 json_dumps accepts) w records,
                [(''status'', ''done'')]))"

text \<open>
  The request the handler builds for a row, written out from the claims' words: the
  payload is the serialized row, the partition key is the value of the row's \<open>trip_id\<close>
  field, or \<open>unknown\<close> when the row has no \<open>trip_id\<close> field.
\<close>

definition request_of :: "string \<Rightarrow> (row \<Rightarrow> 'b) \<Rightarrow> row \<Rightarrow> 'b put_request" where
  "request_of stream_name json_dumps row =
     \<lparr>StreamName = stream_name, Data = json_dumps row,
      PartitionKey = (if Some ''trip_id'' \<in> fst ` set row
                      then the (map_of row (Some ''trip_id''))
                      else JString ''unknown'')\<rparr>"

text \<open>
  The rows the handler reads from the file of a notification; none when the file cannot
  be fetched or read.
\<close>

definition rows_of :: "s3_objects \<Rightarrow> s3_record \<Rightarrow> row list" where
  "rows_of s3 record =
     (case s3 (bucket_name record, object_key record) of None \<Rightarrow> [] | Some rows \<Rightarrow> rows)"

text \<open>
  \<^verbatim>\<open>json.dumps(row)\<close>, as the JSON document whose text it writes: one member per item of
  the dictionary, in order. A key that is not a string is written as the JSON text of
  its value: the rest key \<^verbatim>\<open>None\<close> becomes the member name \<open>null\<close>.
\<close>

definition python_json_dumps :: "row \<Rightarrow> json" where
  "python_json_dumps row =
     JObject (map (\<lambda>(k, v). (case k of None \<Rightarrow> ''null'' | Some c \<Rightarrow> c, v)) row)"

text \<open>
  The fields of a row by column name, and the rows the reader can yield: the keys are
  distinct, the value of a column is a text or \<^verbatim>\<open>None\<close>, the value of the rest key is a
  list of texts.
\<close>

definition row_fields :: "row \<Rightarrow> item" where
  "row_fields row = (\<lambda>f. map_of row (Some f))"

fun is_text :: "json \<Rightarrow> bool" where
  "is_text (JString s) = True"
| "is_text v = False"

fun is_cell :: "string option \<times> json \<Rightarrow> bool" where
  "is_cell (Some c, v) = (is_text v \<or> v = JNull)"
| "is_cell (None, JArray cells) = list_all is_text cells"
| "is_cell (None, v) = False"

definition csv_row :: "row \<Rightarrow> bool" where
  "csv_row row = (distinct (map fst row) \<and> list_all is_cell row)"

section \<open>Aggregator: \<^verbatim>\<open>lambda_functions/aggregator/app.py\<close>\<close>

text \<open>
  A pandas timestamp: year, month, day, hour, minute, second and the nanoseconds of
  the fraction of the second. The lexicographic order of
  the tuple is the chronological order, which is the order \<^verbatim>\<open>groupby\<close> sorts its keys in.
\<close>

type_synonym timestamp = "nat \<times> nat \<times> nat \<times> nat \<times> nat \<times> nat \<times> nat"

text \<open>
  The two attributes of a scanned item that the handler reads, each classified by what
  the pandas conversion applied to it makes of the stored value. \<open>pickup_datetime\<close> is
  a value \<^verbatim>\<open>pd.to_datetime\<close> parses (\<open>Datetime\<close>); a value on which it raises
  (\<open>Unparseable_datetime\<close>); a value that is no timestamp but on which it does not raise
  and returns NaT, such as null or the empty string (\<open>Null_datetime\<close>); or absent from
  the item (\<open>No_datetime\<close>). \<open>fare_amount\<close> is present on every item (the scan filter
  requires it) and is a value \<^verbatim>\<open>pd.to_numeric\<close> parses or not. A parsed fare is the
  rational that the float denotes. The two aggregations that round, the sum and the mean
  of a list of floats, are parameters \<open>float_sum\<close> and \<open>float_mean\<close> of the model;
  maximum and minimum do not round.
\<close>

datatype raw_datetime = Datetime timestamp | Unparseable_datetime | Null_datetime | No_datetime

datatype raw_number = Numeric rat | Non_numeric

record trip_item =
  pickup_datetime :: raw_datetime
  fare_amount :: raw_number

text \<open>A row of the frame \<open>kpis\<close>; \<open>None\<close> stands for NaN.\<close>

record kpi =
  kpi_pickup_datetime :: timestamp
  total_fare :: rat
  count_trips :: nat
  average_fare :: "rat option"
  max_fare :: "rat option"
  min_fare :: "rat option"

text \<open>
  The output bucket: the object stored under a bucket name and key (the body
  \<^verbatim>\<open>row.to_json()\<close> is modelled by the row it serializes), and the \<^verbatim>\<open>put_object\<close> calls
  made so far, oldest first.
\<close>

record bucket_state =
  objects :: "string \<times> string \<rightharpoonup> kpi"
  put_object_calls :: "(string \<times> string \<times> kpi) list"

text \<open>\<^verbatim>\<open>pd.to_numeric(..., errors='coerce')\<close> on one value: what cannot be parsed becomes NaN.\<close>

fun to_numeric_coerce :: "raw_number \<Rightarrow> rat option" where
  "to_numeric_coerce (Numeric x) = Some x"
| "to_numeric_coerce Non_numeric = None"

text \<open>
  \<^verbatim>\<open>pd.to_datetime\<close> on a column, with its default \<^verbatim>\<open>errors='raise'\<close>: a value it
  rejects raises; a null, empty or missing value becomes NaT (\<open>None\<close>).
\<close>

fun to_datetime_values :: "raw_datetime list \<Rightarrow> error + timestamp option list" where
  "to_datetime_values [] = Inr []"
| "to_datetime_values (Datetime t # xs) =
     (case to_datetime_values xs of Inl e \<Rightarrow> Inl e | Inr ts \<Rightarrow> Inr (Some t # ts))"
| "to_datetime_values (Null_datetime # xs) =
     (case to_datetime_values xs of Inl e \<Rightarrow> Inl e | Inr ts \<Rightarrow> Inr (None # ts))"
| "to_datetime_values (No_datetime # xs) =
     (case to_datetime_values xs of Inl e \<Rightarrow> Inl e | Inr ts \<Rightarrow> Inr (None # ts))"
| "to_datetime_values (Unparseable_datetime # xs) = Inl ValueError"

text \<open>
  \<^verbatim>\<open>pd.to_datetime(df['pickup_datetime'])\<close>: the frame has the column only when some item
  has the attribute; \<^verbatim>\<open>df['pickup_datetime']\<close> raises a \<^verbatim>\<open>KeyError\<close> otherwise.
\<close>

definition to_datetime :: "raw_datetime list \<Rightarrow> error + timestamp option list" where
  "to_datetime column =
     (if \<forall>x\<in>set column. x = No_datetime then Inl (KeyError ''pickup_datetime'')
      else to_datetime_values column)"

text \<open>
  The five aggregations of pandas, which skip NaN. The sum and the mean apply the
  rounding operations \<open>float_sum\<close> and \<open>float_mean\<close> to the values that are not NaN.
\<close>

definition non_nan :: "rat option list \<Rightarrow> rat list" where
  "non_nan xs = [x. Some x \<leftarrow> xs]"

definition agg_sum :: "(rat list \<Rightarrow> rat) \<Rightarrow> rat option list \<Rightarrow> rat" where
  "agg_sum float_sum xs = float_sum (non_nan xs)"

definition agg_count :: "rat option list \<Rightarrow> nat" where
  "agg_count xs = length (non_nan xs)"

definition agg_mean :: "(rat list \<Rightarrow> rat) \<Rightarrow> rat option list \<Rightarrow> rat option" where
  "agg_mean float_mean xs = (if non_nan xs = [] then None else Some (float_mean (non_nan xs)))"

definition agg_max :: "rat option list \<Rightarrow> rat option" where
  "agg_max xs = (case non_nan xs of [] \<Rightarrow> None | y # ys \<Rightarrow> Some (fold max ys y))"

definition agg_min :: "rat option list \<Rightarrow> rat option" where
  "agg_min xs = (case non_nan xs of [] \<Rightarrow> None | y # ys \<Rightarrow> Some (fold min ys y))"

text \<open>
  \<^verbatim>\<open>df.groupby('pickup_datetime').agg(...).reset_index()\<close> on the frame given as its rows
  (timestamp, fare): one row per distinct timestamp, in increasing order of the
  timestamp; rows whose timestamp is NaT belong to no group.
\<close>

definition groupby_agg ::
  "(rat list \<Rightarrow> rat) \<Rightarrow> (rat list \<Rightarrow> rat) \<Rightarrow> (timestamp option \<times> rat option) list \<Rightarrow> kpi list" where
  "groupby_agg float_sum float_mean df =
     map (\<lambda>key.
            (let fares = [fare. (t, fare) \<leftarrow> df, t = Some key]
             in \<lparr>kpi_pickup_datetime = key,
                 total_fare = agg_sum float_sum fares,
                 count_trips = agg_count fares,
                 average_fare = agg_mean float_mean fares,
                 max_fare = agg_max fares,
                 min_fare = agg_min fares\<rparr>))
         (sort (remdups [key. (Some key, fare) \<leftarrow> df]))"

text \<open>
  \<^verbatim>\<open>strftime('%Y-%m-%d')\<close>: the year on four digits, the month and the day on two, in
  decimal, padded with zeros.
\<close>

definition digit_char :: "nat \<Rightarrow> char" where
  "digit_char n = ''0123456789'' ! n"

fun show_nat :: "nat \<Rightarrow> string" where
  "show_nat n = (if n < 10 then [digit_char n] else show_nat (n div 10) @ [digit_char (n mod 10)])"

declare show_nat.simps [simp del]

definition zero_pad :: "nat \<Rightarrow> nat \<Rightarrow> string" where
  "zero_pad width n = replicate (width - length (show_nat n)) CHR ''0'' @ show_nat n"

fun strftime_date :: "timestamp \<Rightarrow> string" where
  "strftime_date (year, month, day, rest) =
     zero_pad 4 year @ ''-'' @ zero_pad 2 month @ ''-'' @ zero_pad 2 day"

text \<open>\<^verbatim>\<open>s3.put_object(Bucket=..., Key=..., Body=...)\<close>: an unconditional overwrite.\<close>

definition put_object :: "bucket_state \<Rightarrow> string \<Rightarrow> string \<Rightarrow> kpi \<Rightarrow> bucket_state" where
  "put_object s3 bucket key body =
     s3\<lparr>objects := (objects s3)((bucket, key) \<mapsto> body),
        put_object_calls := put_object_calls s3 @ [(bucket, key, body)]\<rparr>"

text \<open>
  The loop \<^verbatim>\<open>for _, row in kpis.iterrows()\<close>. \<open>env\<close> is the environment variable
  \<^verbatim>\<open>ATHENA_BUCKET_NAME\<close>; \<^verbatim>\<open>os.environ['ATHENA_BUCKET_NAME']\<close> raises a \<^verbatim>\<open>KeyError\<close> when
  it is not set. The result is the exception raised, if any, and the bucket as the loop
  left it.
\<close>

fun upload_kpis :: "string option \<Rightarrow> bucket_state \<Rightarrow> kpi list \<Rightarrow> error option \<times> bucket_state" where
  "upload_kpis env s3 [] = (None, s3)"
| "upload_kpis env s3 (row # rows) =
     (let date_str = strftime_date (kpi_pickup_datetime row);
          filename = ''kpis/date='' @ date_str @ ''/kpi.json''
      in case env of
           None \<Rightarrow> (Some (KeyError ''ATHENA_BUCKET_NAME''), s3)
         | Some bucket \<Rightarrow> upload_kpis env (put_object s3 bucket filename row) rows)"

text \<open>
  The handler, from the list \<open>items\<close> that \<^verbatim>\<open>scan_all_items()\<close> returned. The first
  component of the result is the exception that the \<^verbatim>\<open>except\<close> clause logs and raises
  again, \<open>None\<close> when the handler returns normally.
\<close>

definition aggregator_handler ::
  "(rat list \<Rightarrow> rat) \<Rightarrow> (rat list \<Rightarrow> rat) \<Rightarrow> string option \<Rightarrow> bucket_state \<Rightarrow> trip_item list
     \<Rightarrow> error option \<times> bucket_state" where
  "aggregator_handler float_sum float_mean env s3 items =
     (if items = [] then (None, s3)
      else
        (let fare_column = map (\<lambda>item. to_numeric_coerce (fare_amount item)) items
         in case to_datetime (map pickup_datetime items) of
              Inl e \<Rightarrow> (Some e, s3)
            | Inr datetime_column \<Rightarrow>
                upload_kpis env s3
                  (groupby_agg float_sum float_mean (zip datetime_column fare_column))))"

text \<open>
  The vocabulary of the claims about the Aggregator: the distinct timestamps of the
  items, the fares of the items that have a given timestamp, the statistics of that
  group, the path of the object written for a timestamp, and two timestamps falling on
  the same calendar day.
\<close>

definition timestamps_of :: "trip_item list \<Rightarrow> timestamp set" where
  "timestamps_of items = {t. \<exists>item\<in>set items. pickup_datetime item = Datetime t}"

definition group_fares :: "trip_item list \<Rightarrow> timestamp \<Rightarrow> rat list" where
  "group_fares items t =
     concat (map (\<lambda>item. case fare_amount item of Numeric x \<Rightarrow> [x] | Non_numeric \<Rightarrow> [])
               (filter (\<lambda>item. pickup_datetime item = Datetime t) items))"

definition group_kpi ::
  "(rat list \<Rightarrow> rat) \<Rightarrow> (rat list \<Rightarrow> rat) \<Rightarrow> trip_item list \<Rightarrow> timestamp \<Rightarrow> kpi" where
  "group_kpi float_sum float_mean items t =
     \<lparr>kpi_pickup_datetime = t,
      total_fare = float_sum (group_fares items t),
      count_trips = length (group_fares items t),
      average_fare = Some (float_mean (group_fares items t)),
      max_fare = Some (Max (set (group_fares items t))),
      min_fare = Some (Min (set (group_fares items t)))\<rparr>"

text \<open>
  The statistics of a group some of whose fares may not parse: they are those of the
  fares that parse, and the mean, maximum and minimum are NaN when none does.
\<close>

definition group_kpi_nan ::
  "(rat list \<Rightarrow> rat) \<Rightarrow> (rat list \<Rightarrow> rat) \<Rightarrow> trip_item list \<Rightarrow> timestamp \<Rightarrow> kpi" where
  "group_kpi_nan float_sum float_mean items t =
     \<lparr>kpi_pickup_datetime = t,
      total_fare = float_sum (group_fares items t),
      count_trips = length (group_fares items t),
      average_fare = (if group_fares items t = [] then None
                      else Some (float_mean (group_fares items t))),
      max_fare = (if group_fares items t = [] then None
                  else Some (Max (set (group_fares items t)))),
      min_fare = (if group_fares items t = [] then None
                  else Some (Min (set (group_fares items t))))\<rparr>"

text \<open>The sum and the mean where no rounding occurs.\<close>

definition exact_sum :: "rat list \<Rightarrow> rat" where
  "exact_sum xs = sum_list xs"

definition exact_mean :: "rat list \<Rightarrow> rat" where
  "exact_mean xs = sum_list xs / of_nat (length xs)"

definition kpi_path :: "timestamp \<Rightarrow> string" where
  "kpi_path t = ''kpis/date='' @ strftime_date t @ ''/kpi.json''"

fun same_day :: "timestamp \<Rightarrow> timestamp \<Rightarrow> bool" where
  "same_day (y, m, d, r) (y', m', d', r') = (y = y' \<and> m = m' \<and> d = d')"

text \<open>Auxiliary functions of the proofs: the NaT-or-value of a stored datetime, and the
  number a string of decimal digits denotes.\<close>

fun time_of :: "raw_datetime \<Rightarrow> timestamp option" where
  "time_of (Datetime t) = Some t"
| "time_of Unparseable_datetime = None"
| "time_of Null_datetime = None"
| "time_of No_datetime = None"

definition digit_value :: "char \<Rightarrow> nat" where
  "digit_value c = of_char c - 48"

definition read_nat :: "string \<Rightarrow> nat" where
  "read_nat s = foldl (\<lambda>n c. 10 * n + digit_value c) 0 s"






section \<open>Properties of the Merger\<close>

lemma valid_key_storable: "valid_key kt k \<Longrightarrow> storable k"
  by (cases "(kt, k)" rule: valid_key.cases) auto

lemma json_loads_cases:
  "json_loads doc = Json_object d \<longleftrightarrow> (\<exists>members. doc = JObject members \<and> d = map_of (rev members))"
  by (cases doc) auto

lemma process_record_dict:
  assumes "decode_payload r = Inr (Json_object d)"
  shows "process_record tbl r =
     (case d ''trip_id'' of
        None \<Rightarrow> Inl (KeyError ''trip_id'')
      | Some k \<Rightarrow>
          if \<not> storable k then Inl TypeError
          else if \<not> valid_key (key_type tbl) k then Inl ClientError
          else if \<exists>v\<in>ran (merged_with tbl k d). \<not> storable v then Inl TypeError
          else Inr (tbl\<lparr>contents := (contents tbl)(k \<mapsto> merged_with tbl k d),
                        put_calls := put_calls tbl @ [merged_with tbl k d]\<rparr>))"
  using assms
  by (simp add: process_record_def get_item_def put_item_def merged_with_def
        split: option.splits)

lemma process_record_cases:
  assumes "process_record tbl r = Inr tbl'"
  shows "\<exists>d k. decode_payload r = Inr (Json_object d) \<and> d ''trip_id'' = Some k
           \<and> valid_key (key_type tbl) k
           \<and> (\<forall>v\<in>ran (merged_with tbl k d). storable v)
           \<and> tbl' = tbl\<lparr>contents := (contents tbl)(k \<mapsto> merged_with tbl k d),
                         put_calls := put_calls tbl @ [merged_with tbl k d]\<rparr>"
proof (cases "decode_payload r")
  case (Inl e)
  with assms show ?thesis by (simp add: process_record_def)
next
  case (Inr v)
  show ?thesis
  proof (cases v)
    case (Json_object d)
    with Inr have dec: "decode_payload r = Inr (Json_object d)" by simp
    from assms show ?thesis
      unfolding process_record_dict [OF dec]
      by (auto simp: dec split: option.splits if_splits)
  next
    case Json_other
    with Inr assms show ?thesis by (simp add: process_record_def)
  qed
qed

lemma process_records_append:
  "process_records st (xs @ ys) = process_records (process_records st xs) ys"
proof (induction xs arbitrary: st)
  case Nil
  show ?case by simp
next
  case (Cons x xs)
  obtain tbl lg where st: "st = (tbl, lg)" by (cases st)
  show ?case unfolding st using Cons.IH
    by (simp split: sum.splits)
qed

lemma process_records_table_log:
  "fst (process_records (tbl, lg) rs) = fst (process_records (tbl, lg') rs)"
  by (induction rs arbitrary: tbl lg lg') (auto split: sum.splits)

lemma table_after_append:
  "table_after tbl (xs @ ys) = table_after (table_after tbl xs) ys"
proof -
  obtain t1 l1 where st: "process_records (tbl, []) xs = (t1, l1)"
    by (cases "process_records (tbl, []) xs")
  have "fst (process_records (t1, l1) ys) = fst (process_records (t1, []) ys)"
    by (rule process_records_table_log)
  then show ?thesis
    by (simp add: table_after_def merger_handler_def process_records_append st)
qed

lemma table_after_Nil: "table_after tbl [] = tbl"
  by (simp add: table_after_def merger_handler_def)

lemma table_after_Cons:
  "table_after tbl (r # rs) =
     table_after (case process_record tbl r of Inl e \<Rightarrow> tbl | Inr tbl' \<Rightarrow> tbl') rs"
  using process_records_table_log [of tbl "[e]" rs "[]" for e]
  by (simp add: table_after_def merger_handler_def split: sum.splits)

text \<open>
  Claim C6. A record whose decoded payload is a dictionary without \<open>trip_id\<close> raises a
  \<^verbatim>\<open>KeyError\<close> before any table call, so it writes nothing; the batch that contains it
  leaves the table (contents and \<^verbatim>\<open>put_item\<close> trace) exactly as the batch without it
  does, so the records after it are processed as usual; and the handler returns
  \<^verbatim>\<open>{"status": "ok"}\<close>.
\<close>

theorem missing_trip_id_skipped:
  assumes "decode_payload r = Inr (Json_object d)" and "d ''trip_id'' = None"
  shows "process_record tbl r = Inl (KeyError ''trip_id'')
       \<and> table_after tbl (before @ r # after) = table_after tbl (before @ after)
       \<and> snd (merger_handler tbl (before @ r # after)) = [(''status'', ''ok'')]"
proof -
  have skip: "process_record t r = Inl (KeyError ''trip_id'')" for t
    by (simp add: process_record_dict [OF assms(1)] assms(2))
  have "table_after tbl (before @ r # after) = table_after (table_after tbl before) (r # after)"
    by (rule table_after_append)
  also have "\<dots> = table_after (table_after tbl before) after"
    by (simp add: table_after_Cons skip)
  also have "\<dots> = table_after tbl (before @ after)"
    by (simp add: table_after_append)
  finally show ?thesis
    by (simp add: skip merger_handler_def)
qed

theorem missing_trip_id_skipped_witness:
  "process_record \<lparr>contents = Map.empty, put_calls = [], key_type = String_key\<rparr>
      (Json_text (JObject [(''fare_amount'', JString ''7.5'')])) = Inl (KeyError ''trip_id'')
   \<and> table_after \<lparr>contents = Map.empty, put_calls = [], key_type = String_key\<rparr>
        ([Json_text (JObject [(''trip_id'', JString ''a''), (''fare_amount'', JString ''3'')])]
         @ Json_text (JObject [(''fare_amount'', JString ''7.5'')])
         # [Json_text (JObject [(''trip_id'', JString ''b'')])]) =
     table_after \<lparr>contents = Map.empty, put_calls = [], key_type = String_key\<rparr>
        ([Json_text (JObject [(''trip_id'', JString ''a''), (''fare_amount'', JString ''3'')])]
         @ [Json_text (JObject [(''trip_id'', JString ''b'')])])
   \<and> snd (merger_handler \<lparr>contents = Map.empty, put_calls = [], key_type = String_key\<rparr>
        ([Json_text (JObject [(''trip_id'', JString ''a''), (''fare_amount'', JString ''3'')])]
         @ Json_text (JObject [(''fare_amount'', JString ''7.5'')])
         # [Json_text (JObject [(''trip_id'', JString ''b'')])])) = [(''status'', ''ok'')]
   \<and> length (put_calls (table_after \<lparr>contents = Map.empty, put_calls = [], key_type = String_key\<rparr>
        ([Json_text (JObject [(''trip_id'', JString ''a''), (''fare_amount'', JString ''3'')])]
         @ Json_text (JObject [(''fare_amount'', JString ''7.5'')])
         # [Json_text (JObject [(''trip_id'', JString ''b'')])]))) = 2"
proof -
  define tbl where "tbl = \<lparr>contents = Map.empty, put_calls = [], key_type = String_key\<rparr>"
  define ra where "ra = Json_text (JObject [(''trip_id'', JString ''a''), (''fare_amount'', JString ''3'')])"
  define rb where "rb = Json_text (JObject [(''trip_id'', JString ''b'')])"
  define bad where "bad = Json_text (JObject [(''fare_amount'', JString ''7.5'')])"
  define d where "d = map_of (rev [(''fare_amount'', JString ''7.5'')])"
  have dec: "decode_payload bad = Inr (Json_object d)"
    by (simp add: bad_def d_def)
  have none: "d ''trip_id'' = None"
    by (simp add: d_def)
  define ta where "ta = tbl\<lparr>contents := (contents tbl)(JString ''a'' \<mapsto>
                   merged_with tbl (JString ''a'') (map_of (rev [(''trip_id'', JString ''a''), (''fare_amount'', JString ''3'')]))),
               put_calls := put_calls tbl @
                 [merged_with tbl (JString ''a'') (map_of (rev [(''trip_id'', JString ''a''), (''fare_amount'', JString ''3'')]))]\<rparr>"
  define tb where "tb = ta\<lparr>contents := (contents ta)(JString ''b'' \<mapsto>
                   merged_with ta (JString ''b'') (map_of (rev [(''trip_id'', JString ''b'')]))),
               put_calls := put_calls ta @
                 [merged_with ta (JString ''b'') (map_of (rev [(''trip_id'', JString ''b'')]))]\<rparr>"
  have pa: "process_record tbl ra = Inr ta"
    unfolding ta_def
    by (subst process_record_dict [where d = "map_of (rev [(''trip_id'', JString ''a''), (''fare_amount'', JString ''3'')])"])
       (auto simp: ra_def tbl_def merged_with_def ran_def split: if_splits)
  have pb: "process_record ta rb = Inr tb"
    unfolding tb_def
    by (subst process_record_dict [where d = "map_of (rev [(''trip_id'', JString ''b'')])"])
       (auto simp: rb_def ta_def tbl_def merged_with_def ran_def split: if_splits)
  have "table_after tbl ([ra] @ [rb]) = tb"
    by (simp add: table_after_Cons table_after_Nil pa pb)
  moreover have "length (put_calls tb) = 2"
    by (simp add: tb_def ta_def tbl_def)
  ultimately have two: "length (put_calls (table_after tbl ([ra] @ [rb]))) = 2"
    by simp
  from missing_trip_id_skipped [OF dec none, of tbl "[ra]" "[rb]"] two
  have "process_record tbl bad = Inl (KeyError ''trip_id'')
       \<and> table_after tbl ([ra] @ bad # [rb]) = table_after tbl ([ra] @ [rb])
       \<and> snd (merger_handler tbl ([ra] @ bad # [rb])) = [(''status'', ''ok'')]
       \<and> length (put_calls (table_after tbl ([ra] @ bad # [rb]))) = 2"
    by presburger
  then show ?thesis
    unfolding tbl_def ra_def rb_def bad_def .
qed

lemma merged_with_id: "merged_with tbl k d ''id'' = Some k"
  by (simp add: merged_with_def)

lemma trip_id_of_dict:
  "decode_payload r = Inr (Json_object d) \<Longrightarrow> trip_id_of r = d ''trip_id''"
  by (simp add: trip_id_of_def)

lemma process_record_writes_trip_id:
  assumes "process_record tbl r = Inr tbl'"
  shows "\<exists>k it'. trip_id_of r = Some k \<and> it' ''id'' = Some k
           \<and> contents tbl' = (contents tbl)(k \<mapsto> it')
           \<and> put_calls tbl' = put_calls tbl @ [it']
           \<and> key_type tbl' = key_type tbl"
proof -
  from process_record_cases [OF assms] obtain d k where
    dec: "decode_payload r = Inr (Json_object d)" and k: "d ''trip_id'' = Some k"
    and tbl': "tbl' = tbl\<lparr>contents := (contents tbl)(k \<mapsto> merged_with tbl k d),
                         put_calls := put_calls tbl @ [merged_with tbl k d]\<rparr>"
    by blast
  have "trip_id_of r = Some k" by (simp add: trip_id_of_dict [OF dec] k)
  moreover have "merged_with tbl k d ''id'' = Some k" by (rule merged_with_id)
  ultimately show ?thesis using tbl' by auto
qed

lemma id_invariant_step:
  assumes "id_invariant tbl" and "process_record tbl r = Inr tbl'"
  shows "id_invariant tbl'"
proof -
  from process_record_writes_trip_id [OF assms(2)] obtain k it' where
    "it' ''id'' = Some k" "contents tbl' = (contents tbl)(k \<mapsto> it')"
    by blast
  with assms(1) show ?thesis
    by (auto simp: id_invariant_def)
qed

lemma id_kept_step:
  assumes "id_invariant tbl" and "process_record tbl r = Inr tbl'"
    and "contents tbl k = Some it"
  shows "\<exists>it'. contents tbl' k = Some it' \<and> it' ''id'' = it ''id''"
proof -
  from process_record_writes_trip_id [OF assms(2)] obtain k' it' where
    "it' ''id'' = Some k'" "contents tbl' = (contents tbl)(k' \<mapsto> it')"
    by blast
  with assms(1,3) show ?thesis
    by (auto simp: id_invariant_def)
qed

lemma id_invariant_table_after:
  "id_invariant tbl \<Longrightarrow> id_invariant (table_after tbl records)"
proof (induction records arbitrary: tbl)
  case Nil
  then show ?case by (simp add: table_after_Nil)
next
  case (Cons r rs)
  show ?case
  proof (cases "process_record tbl r")
    case (Inl e)
    with Cons show ?thesis by (simp add: table_after_Cons)
  next
    case (Inr tbl')
    with Cons id_invariant_step [OF Cons.prems Inr] show ?thesis
      by (simp add: table_after_Cons)
  qed
qed

lemma id_kept_table_after:
  "id_invariant tbl \<Longrightarrow> contents tbl k = Some it \<Longrightarrow>
     \<exists>it'. contents (table_after tbl records) k = Some it' \<and> it' ''id'' = it ''id''"
proof (induction records arbitrary: tbl it)
  case Nil
  then show ?case by (simp add: table_after_Nil)
next
  case (Cons r rs)
  show ?case
  proof (cases "process_record tbl r")
    case (Inl e)
    with Cons show ?thesis by (simp add: table_after_Cons)
  next
    case (Inr tbl')
    from id_kept_step [OF Cons.prems(1) Inr Cons.prems(2)] obtain it1 where
      it1: "contents tbl' k = Some it1" "it1 ''id'' = it ''id''" by blast
    from Cons.IH [OF id_invariant_step [OF Cons.prems(1) Inr] it1(1)] it1(2) Inr
    show ?thesis by (simp add: table_after_Cons)
  qed
qed

lemma other_keys_untouched:
  "k \<notin> trip_ids records \<Longrightarrow> contents (table_after tbl records) k = contents tbl k"
proof (induction records arbitrary: tbl)
  case Nil
  show ?case by (simp add: table_after_Nil)
next
  case (Cons r rs)
  from Cons.prems have rest: "k \<notin> trip_ids rs" and here: "trip_id_of r \<noteq> Some k"
    by (auto simp: trip_ids_def)
  show ?case
  proof (cases "process_record tbl r")
    case (Inl e)
    with Cons.IH [OF rest] show ?thesis by (simp add: table_after_Cons)
  next
    case (Inr tbl')
    from process_record_writes_trip_id [OF Inr] obtain k' it' where
      "trip_id_of r = Some k'" "contents tbl' = (contents tbl)(k' \<mapsto> it')"
      by blast
    with here have "contents tbl' k = contents tbl k" by auto
    with Cons.IH [OF rest, of tbl'] Inr show ?thesis by (simp add: table_after_Cons)
  qed
qed

text \<open>
  Claim C9. Starting from a table that respects its key discipline, every batch leaves
  a table that respects it; a record that exists before the batch still exists after it,
  with its \<open>id\<close> equal to its key, so that no batch changes the \<open>id\<close> of an existing
  record; a batch leaves untouched every key that is not the \<open>trip_id\<close> of one of its
  records; and every successful write of a record stores, under the \<open>trip_id\<close> \<open>k\<close> of
  that record, an item whose \<open>id\<close> is \<open>k\<close>, and changes nothing else in the table.
\<close>

theorem merger_id_invariant:
  assumes "id_invariant tbl"
  shows "id_invariant (table_after tbl records)
       \<and> (\<forall>k it. contents tbl k = Some it \<longrightarrow>
            (\<exists>it'. contents (table_after tbl records) k = Some it' \<and> it' ''id'' = Some k))
       \<and> (\<forall>k. k \<notin> trip_ids records \<longrightarrow>
            contents (table_after tbl records) k = contents tbl k)
       \<and> (\<forall>r tbl'. process_record (table_after tbl records) r = Inr tbl' \<longrightarrow>
            (\<exists>k it'. trip_id_of r = Some k \<and> it' ''id'' = Some k
                    \<and> contents tbl' = (contents (table_after tbl records))(k \<mapsto> it')
                    \<and> put_calls tbl' = put_calls (table_after tbl records) @ [it']))"
proof (intro conjI allI impI)
  show "id_invariant (table_after tbl records)"
    using assms by (rule id_invariant_table_after)
next
  fix k it assume "contents tbl k = Some it"
  with id_kept_table_after [OF assms this, of records] assms
  show "\<exists>it'. contents (table_after tbl records) k = Some it' \<and> it' ''id'' = Some k"
    by (auto simp: id_invariant_def)
next
  fix k assume "k \<notin> trip_ids records"
  then show "contents (table_after tbl records) k = contents tbl k"
    by (rule other_keys_untouched)
next
  fix r tbl' assume "process_record (table_after tbl records) r = Inr tbl'"
  from process_record_writes_trip_id [OF this]
  show "\<exists>k it'. trip_id_of r = Some k \<and> it' ''id'' = Some k
                    \<and> contents tbl' = (contents (table_after tbl records))(k \<mapsto> it')
                    \<and> put_calls tbl' = put_calls (table_after tbl records) @ [it']"
    by blast
qed

theorem merger_id_invariant_witness:
  "id_invariant \<lparr>contents = [JString ''a'' \<mapsto> [''id'' \<mapsto> JString ''a'', ''fare_amount'' \<mapsto> JString ''3'']],
                 put_calls = [], key_type = String_key\<rparr>
   \<and> id_invariant (table_after
        \<lparr>contents = [JString ''a'' \<mapsto> [''id'' \<mapsto> JString ''a'', ''fare_amount'' \<mapsto> JString ''3'']],
         put_calls = [], key_type = String_key\<rparr>
        [Json_text (JObject [(''trip_id'', JString ''a''), (''id'', JString ''zz'')]), Invalid_json])
   \<and> (\<exists>it'. contents (table_after
        \<lparr>contents = [JString ''a'' \<mapsto> [''id'' \<mapsto> JString ''a'', ''fare_amount'' \<mapsto> JString ''3'']],
         put_calls = [], key_type = String_key\<rparr>
        [Json_text (JObject [(''trip_id'', JString ''a''), (''id'', JString ''zz'')]), Invalid_json])
          (JString ''a'') = Some it'
         \<and> it' ''id'' = Some (JString ''a''))
   \<and> contents (table_after
        \<lparr>contents = [JString ''a'' \<mapsto> [''id'' \<mapsto> JString ''a'', ''fare_amount'' \<mapsto> JString ''3'']],
         put_calls = [], key_type = String_key\<rparr>
        [Json_text (JObject [(''trip_id'', JString ''a''), (''id'', JString ''zz'')]), Invalid_json])
          (JString ''zz'') = None"
proof -
  define tbl where "tbl = \<lparr>contents = [JString ''a'' \<mapsto> [''id'' \<mapsto> JString ''a'', ''fare_amount'' \<mapsto> JString ''3'']],
                 put_calls = [], key_type = String_key\<rparr>"
  define recs where "recs = [Json_text (JObject [(''trip_id'', JString ''a''), (''id'', JString ''zz'')]), Invalid_json]"
  have inv: "id_invariant tbl"
    by (simp add: id_invariant_def tbl_def)
  have here: "contents tbl (JString ''a'') = Some [''id'' \<mapsto> JString ''a'', ''fare_amount'' \<mapsto> JString ''3'']"
    by (simp add: tbl_def)
  have other: "JString ''zz'' \<notin> trip_ids recs"
    by (simp add: trip_ids_def trip_id_of_def recs_def)
  have none: "contents tbl (JString ''zz'') = None"
    by (simp add: tbl_def)
  note inst = merger_id_invariant [OF inv, of recs]
  from inst have 1: "id_invariant (table_after tbl recs)"
    by (rule conjunct1)
  from inst have "\<forall>k it. contents tbl k = Some it \<longrightarrow>
            (\<exists>it'. contents (table_after tbl recs) k = Some it' \<and> it' ''id'' = Some k)"
    by (elim conjE)
  with here have 2: "\<exists>it'. contents (table_after tbl recs) (JString ''a'') = Some it'
      \<and> it' ''id'' = Some (JString ''a'')"
    by blast
  from inst have "\<forall>k. k \<notin> trip_ids recs \<longrightarrow> contents (table_after tbl recs) k = contents tbl k"
    by (elim conjE)
  with other none have 3: "contents (table_after tbl recs) (JString ''zz'') = None"
    by simp
  from inv 1 2 3 have "id_invariant tbl \<and> id_invariant (table_after tbl recs)
      \<and> (\<exists>it'. contents (table_after tbl recs) (JString ''a'') = Some it'
            \<and> it' ''id'' = Some (JString ''a''))
      \<and> contents (table_after tbl recs) (JString ''zz'') = None"
    by (intro conjI)
  then show ?thesis
    unfolding tbl_def recs_def .
qed

lemma ran_merged_with:
  assumes "v \<in> ran (merged_with tbl k d)"
  shows "v = k \<or> v \<in> ran d \<or> (\<exists>it. contents tbl k = Some it \<and> v \<in> ran it)"
proof -
  from assms obtain f where f: "merged_with tbl k d f = Some v"
    by (auto simp: ran_def)
  show ?thesis
  proof (cases "f = ''id''")
    case True
    with f show ?thesis by (simp add: merged_with_def)
  next
    case False
    with f show ?thesis
      by (auto simp: merged_with_def map_add_def ran_def split: option.splits)
  qed
qed

lemma process_records_log: "\<exists>es. snd (process_records (t, lg) rs) = lg @ es"
proof (induction rs arbitrary: t lg)
  case Nil
  show ?case by simp
next
  case (Cons r rs)
  show ?case
  proof (cases "process_record t r")
    case (Inl e)
    from Cons.IH [of t "lg @ [e]"] obtain es where
      "snd (process_records (t, lg @ [e]) rs) = (lg @ [e]) @ es" ..
    with Inl show ?thesis by simp
  next
    case (Inr t1)
    with Cons.IH [of t1 lg] show ?thesis by simp
  qed
qed

lemma no_error_Cons:
  assumes "snd (process_records (t, []) (r # rs)) = []"
  shows "\<exists>t1. process_record t r = Inr t1 \<and> snd (process_records (t1, []) rs) = []"
proof (cases "process_record t r")
  case (Inl e)
  from process_records_log [of t "[e]" rs] obtain es where
    "snd (process_records (t, [e]) rs) = [e] @ es" ..
  with assms Inl show ?thesis by simp
next
  case (Inr t1)
  with assms show ?thesis by simp
qed

lemma written_record:
  assumes "process_record t r = Inr t1" and "decode_payload r = Inr (Json_object p)"
    and "p ''trip_id'' = Some k"
  shows "t1 = t\<lparr>contents := (contents t)(k \<mapsto> merged_with t k p),
                  put_calls := put_calls t @ [merged_with t k p]\<rparr>"
proof -
  from process_record_cases [OF assms(1)] obtain d k' where
    "decode_payload r = Inr (Json_object d)" and "d ''trip_id'' = Some k'"
    and "t1 = t\<lparr>contents := (contents t)(k' \<mapsto> merged_with t k' d),
                   put_calls := put_calls t @ [merged_with t k' d]\<rparr>"
    by blast
  with assms(2,3) show ?thesis by simp
qed

lemma written_if_storable:
  assumes "decode_payload r = Inr (Json_object d)" and "d ''trip_id'' = Some k"
    and "\<forall>v\<in>ran d. storable v" and "valid_key (key_type t) k"
    and "\<forall>it. contents t k = Some it \<longrightarrow> (\<forall>v\<in>ran it. storable v)"
  shows "process_record t r =
           Inr (t\<lparr>contents := (contents t)(k \<mapsto> merged_with t k d),
                   put_calls := put_calls t @ [merged_with t k d]\<rparr>)"
proof -
  have "\<forall>v\<in>ran (merged_with t k d). storable v"
    using ran_merged_with [of _ t k d] assms(3,4,5) valid_key_storable by blast
  with assms(2,4) valid_key_storable [OF assms(4)] show ?thesis
    by (simp add: process_record_dict [OF assms(1)])
qed

lemma storable_batch_logs_no_error:
  assumes "map decode_payload rs = map (\<lambda>p. Inr (Json_object p)) ps"
    and "\<forall>q\<in>set ps. q ''trip_id'' = Some k \<and> (\<forall>v\<in>ran q. storable v)"
    and "valid_key (key_type t) k"
    and "\<forall>it. contents t k = Some it \<longrightarrow> (\<forall>v\<in>ran it. storable v)"
  shows "snd (process_records (t, lg) rs) = lg"
  using assms
proof (induction ps arbitrary: rs t)
  case Nil
  then show ?case by simp
next
  case (Cons p ps)
  from Cons.prems(1) obtain r rs' where rs: "rs = r # rs'"
    by (cases rs) auto
  from Cons.prems(1) have dec: "decode_payload r = Inr (Json_object p)"
    and rest_dec: "map decode_payload rs' = map (\<lambda>p. Inr (Json_object p)) ps"
    by (simp_all add: rs)
  from Cons.prems(2) have pk: "p ''trip_id'' = Some k" and pv: "\<forall>v\<in>ran p. storable v"
    and rest: "\<forall>q\<in>set ps. q ''trip_id'' = Some k \<and> (\<forall>v\<in>ran q. storable v)"
    by simp_all
  define t1 where "t1 = t\<lparr>contents := (contents t)(k \<mapsto> merged_with t k p),
                           put_calls := put_calls t @ [merged_with t k p]\<rparr>"
  have step: "process_record t r = Inr t1"
    unfolding t1_def by (rule written_if_storable [OF dec pk pv Cons.prems(3,4)])
  have ok: "\<forall>v\<in>ran (merged_with t k p). storable v"
    using ran_merged_with [of _ t k p] pv Cons.prems(3,4) valid_key_storable by blast
  have key1: "valid_key (key_type t1) k"
    using Cons.prems(3) by (simp add: t1_def)
  have inv1: "\<forall>it. contents t1 k = Some it \<longrightarrow> (\<forall>v\<in>ran it. storable v)"
    using ok by (simp add: t1_def)
  from Cons.IH [OF rest_dec rest key1 inv1] show ?case
    by (simp add: rs step)
qed

lemma merged_item:
  assumes "map decode_payload (r # rs) = map (\<lambda>p. Inr (Json_object p)) (p # ps)"
    and "\<forall>q\<in>set (p # ps). q ''trip_id'' = Some k"
    and "snd (process_records (t, []) (r # rs)) = []"
  shows "contents (table_after t (r # rs)) k =
           Some (\<lambda>f. if f = ''id'' then Some k
                      else case last_write (p # ps) f of
                             None \<Rightarrow> (case contents t k of None \<Rightarrow> None | Some it \<Rightarrow> it f)
                           | Some v \<Rightarrow> Some v)"
  using assms
proof (induction ps arbitrary: r rs p t)
  case Nil
  from Nil.prems(1) have dec: "decode_payload r = Inr (Json_object p)" and rs: "rs = []"
    by simp_all
  from Nil.prems(2) have pk: "p ''trip_id'' = Some k" by simp
  from no_error_Cons [OF Nil.prems(3)] obtain t1 where step: "process_record t r = Inr t1"
    by blast
  note t1 = written_record [OF step dec pk]
  have "merged_with t k p =
        (\<lambda>f. if f = ''id'' then Some k
             else case last_write [p] f of
                    None \<Rightarrow> (case contents t k of None \<Rightarrow> None | Some it \<Rightarrow> it f)
                  | Some v \<Rightarrow> Some v)"
    by (rule ext) (simp add: merged_with_def map_add_def split: option.splits)
  then show ?case
    by (simp add: rs table_after_Cons table_after_Nil step t1)
next
  case (Cons q qs)
  from Cons.prems(1) obtain r' rs' where rs: "rs = r' # rs'"
    by (cases rs) auto
  from Cons.prems(1) have dec: "decode_payload r = Inr (Json_object p)"
    and rest_dec: "map decode_payload (r' # rs') = map (\<lambda>p. Inr (Json_object p)) (q # qs)"
    by (simp_all add: rs)
  from Cons.prems(2) have pk: "p ''trip_id'' = Some k"
    and rest: "\<forall>x\<in>set (q # qs). x ''trip_id'' = Some k"
    by simp_all
  from no_error_Cons [OF Cons.prems(3)] obtain t1 where step: "process_record t r = Inr t1"
    and rest_ok: "snd (process_records (t1, []) (r' # rs')) = []"
    unfolding rs by blast
  note t1 = written_record [OF step dec pk]
  have c1: "contents t1 k = Some (merged_with t k p)"
    by (simp add: t1)
  have m_at: "merged_with t k p f =
      (if f = ''id'' then Some k
       else case p f of None \<Rightarrow> (case contents t k of None \<Rightarrow> None | Some it \<Rightarrow> it f)
                      | Some v \<Rightarrow> Some v)" for f
    by (simp add: merged_with_def map_add_def split: option.splits)
  have "contents (table_after t (r # rs)) k = contents (table_after t1 (r' # rs')) k"
    by (simp add: rs table_after_Cons step)
  also have "\<dots> = Some (\<lambda>f. if f = ''id'' then Some k
                      else case last_write (q # qs) f of
                             None \<Rightarrow> (case contents t1 k of None \<Rightarrow> None | Some it \<Rightarrow> it f)
                           | Some v \<Rightarrow> Some v)"
    by (rule Cons.IH [OF rest_dec rest rest_ok])
  also have "(\<lambda>f. if f = ''id'' then Some k
                      else case last_write (q # qs) f of
                             None \<Rightarrow> (case contents t1 k of None \<Rightarrow> None | Some it \<Rightarrow> it f)
                           | Some v \<Rightarrow> Some v) =
             (\<lambda>f. if f = ''id'' then Some k
                      else case last_write (p # q # qs) f of
                             None \<Rightarrow> (case contents t k of None \<Rightarrow> None | Some it \<Rightarrow> it f)
                           | Some v \<Rightarrow> Some v)"
    by (rule ext) (simp add: c1 m_at split: option.splits)
  finally show ?case .
qed

lemma last_write_None: "last_write ps f = None \<longleftrightarrow> (\<forall>p\<in>set ps. p f = None)"
  by (induction ps) (auto split: option.splits)

lemma last_write_at:
  assumes "i < length ps" and "(ps ! i) f \<noteq> None"
    and "\<forall>j. i < j \<and> j < length ps \<longrightarrow> (ps ! j) f = None"
  shows "last_write ps f = (ps ! i) f"
  using assms
proof (induction ps arbitrary: i)
  case Nil
  then show ?case by simp
next
  case (Cons p ps)
  show ?case
  proof (cases i)
    case 0
    have "\<forall>q\<in>set ps. q f = None"
    proof
      fix q assume "q \<in> set ps"
      then obtain j where "j < length ps" "ps ! j = q" by (auto simp: in_set_conv_nth)
      with Cons.prems(3) [rule_format, of "Suc j"] 0 show "q f = None" by simp
    qed
    then have "last_write ps f = None" by (simp add: last_write_None)
    with 0 show ?thesis by simp
  next
    case (Suc n)
    have later: "\<forall>j. n < j \<and> j < length ps \<longrightarrow> (ps ! j) f = None"
    proof (intro allI impI)
      fix j assume "n < j \<and> j < length ps"
      with Cons.prems(3) [rule_format, of "Suc j"] Suc show "(ps ! j) f = None" by simp
    qed
    from Cons.prems Suc have "n < length ps" "(ps ! n) f \<noteq> None" by simp_all
    from Cons.IH [OF this later] this(2) Suc show ?thesis
      by (auto split: option.splits)
  qed
qed

text \<open>
  Claim C1, as amended. A non-empty sequence of records that decode to dictionaries all
  carrying the same \<open>trip_id\<close> \<open>k\<close>, and that the handler processes without logging an
  error (each is decoded and written), merged in order into a table with no record
  under \<open>k\<close>, leaves under \<open>k\<close> a record whose fields are the union of the fields of
  all the dictionaries plus \<open>id\<close>, whose \<open>id\<close> is \<open>k\<close> whatever \<open>id\<close> the dictionaries
  carried, and in which every other field has the value of the last dictionary that has
  the field.
\<close>

theorem merge_last_write_wins:
  assumes "ps \<noteq> []"
    and "map decode_payload records = map (\<lambda>p. Inr (Json_object p)) ps"
    and "\<forall>p\<in>set ps. p ''trip_id'' = Some k"
    and "snd (fst (merger_handler tbl records)) = []"
    and "contents tbl k = None"
  shows "\<exists>it. contents (table_after tbl records) k = Some it
       \<and> dom it = (\<Union>p\<in>set ps. dom p) \<union> {''id''}
       \<and> it ''id'' = Some k
       \<and> (\<forall>f i. f \<noteq> ''id'' \<and> i < length ps \<and> (ps ! i) f \<noteq> None
                \<and> (\<forall>j. i < j \<and> j < length ps \<longrightarrow> (ps ! j) f = None)
              \<longrightarrow> it f = (ps ! i) f)"
proof -
  define it where "it = (\<lambda>f. if f = ''id'' then Some k
                           else case last_write ps f of
                                  None \<Rightarrow> (case contents tbl k of None \<Rightarrow> None | Some it \<Rightarrow> it f)
                                | Some v \<Rightarrow> Some v)"
  have at: "it f = (if f = ''id'' then Some k else last_write ps f)" for f
    by (simp add: it_def assms(5) split: option.splits)
  have stored: "contents (table_after tbl records) k = Some it"
  proof -
    from assms(1) obtain p qs where ps: "ps = p # qs" by (cases ps) auto
    with assms(2) obtain r rs where rs: "records = r # rs" by (cases records) auto
    from assms(4) have ok: "snd (process_records (tbl, []) (r # rs)) = []"
      by (simp add: merger_handler_def rs)
    from assms(2) have dec: "map decode_payload (r # rs) = map (\<lambda>p. Inr (Json_object p)) (p # qs)"
      by (simp only: ps rs)
    from assms(3) have same: "\<forall>q\<in>set (p # qs). q ''trip_id'' = Some k"
      by (simp only: ps)
    from merged_item [OF dec same ok] show ?thesis
      unfolding ps rs it_def .
  qed
  have "dom it = (\<Union>p\<in>set ps. dom p) \<union> {''id''}"
  proof (rule set_eqI)
    fix f
    have "last_write ps f \<noteq> None \<longleftrightarrow> (\<exists>p\<in>set ps. p f \<noteq> None)"
      by (simp add: last_write_None)
    then show "f \<in> dom it \<longleftrightarrow> f \<in> (\<Union>p\<in>set ps. dom p) \<union> {''id''}"
      by (auto simp: dom_def at)
  qed
  moreover have "it ''id'' = Some k" by (simp add: at)
  moreover have "\<forall>f i. f \<noteq> ''id'' \<and> i < length ps \<and> (ps ! i) f \<noteq> None
                \<and> (\<forall>j. i < j \<and> j < length ps \<longrightarrow> (ps ! j) f = None)
              \<longrightarrow> it f = (ps ! i) f"
    by (auto simp: at intro: last_write_at)
  ultimately show ?thesis using stored by blast
qed

theorem merge_last_write_wins_witness:
  "\<exists>it. contents (table_after \<lparr>contents = Map.empty, put_calls = [], key_type = String_key\<rparr>
            [Json_text (JObject [(''trip_id'', JString ''a''), (''fare_amount'', JString ''3'')]),
             Json_text (JObject [(''trip_id'', JString ''a''), (''fare_amount'', JString ''4''),
                                 (''id'', JString ''zz'')]),
             Json_text (JObject [(''trip_id'', JString ''a''), (''tip'', JInt 1)])])
          (JString ''a'') = Some it
      \<and> dom it = {''trip_id'', ''fare_amount'', ''tip'', ''id''}
      \<and> it ''id'' = Some (JString ''a'')
      \<and> it ''fare_amount'' = Some (JString ''4'')"
proof -
  define ps :: "item list" where
    "ps = [[''trip_id'' \<mapsto> JString ''a'', ''fare_amount'' \<mapsto> JString ''3''],
           [''trip_id'' \<mapsto> JString ''a'', ''fare_amount'' \<mapsto> JString ''4'', ''id'' \<mapsto> JString ''zz''],
           [''trip_id'' \<mapsto> JString ''a'', ''tip'' \<mapsto> JInt 1]]"
  define recs where "recs =
            [Json_text (JObject [(''trip_id'', JString ''a''), (''fare_amount'', JString ''3'')]),
             Json_text (JObject [(''trip_id'', JString ''a''), (''fare_amount'', JString ''4''),
                                 (''id'', JString ''zz'')]),
             Json_text (JObject [(''trip_id'', JString ''a''), (''tip'', JInt 1)])]"
  define tbl where "tbl = \<lparr>contents = Map.empty, put_calls = [], key_type = String_key\<rparr>"
  have h1: "ps \<noteq> []" by (simp add: ps_def)
  have h2: "map decode_payload recs = map (\<lambda>p. Inr (Json_object p)) ps"
    by (auto simp: recs_def ps_def)
  have st: "\<forall>p\<in>set ps. p ''trip_id'' = Some (JString ''a'') \<and> (\<forall>v\<in>ran p. storable v)"
    by (auto simp: ps_def ran_def split: if_splits)
  then have h3: "\<forall>p\<in>set ps. p ''trip_id'' = Some (JString ''a'')" by blast
  have vk: "valid_key (key_type tbl) (JString ''a'')" by (simp add: tbl_def)
  have h5: "contents tbl (JString ''a'') = None" by (simp add: tbl_def)
  then have inv: "\<forall>it. contents tbl (JString ''a'') = Some it \<longrightarrow> (\<forall>v\<in>ran it. storable v)"
    by simp
  have h4: "snd (fst (merger_handler tbl recs)) = []"
    unfolding merger_handler_def fst_conv
    by (rule storable_batch_logs_no_error [OF h2 st vk inv])
  have len: "length ps = 3" by (simp add: ps_def)
  have p1: "(ps ! 1) ''fare_amount'' = Some (JString ''4'')" by (simp add: ps_def)
  have p2: "(ps ! 2) ''fare_amount'' = None" by (simp add: ps_def)
  have doms: "(\<Union>p\<in>set ps. dom p) \<union> {''id''} = {''trip_id'', ''fare_amount'', ''tip'', ''id''}"
    unfolding ps_def by auto
  have later: "\<forall>j. 1 < j \<and> j < length ps \<longrightarrow> (ps ! j) ''fare_amount'' = None"
  proof (intro allI impI)
    fix j assume "1 < j \<and> j < length ps"
    with len have "j = 2" by simp
    with p2 show "(ps ! j) ''fare_amount'' = None" by simp
  qed
  from merge_last_write_wins [OF h1 h2 h3 h4 h5] obtain it where
    all: "contents (table_after tbl recs) (JString ''a'') = Some it
       \<and> dom it = (\<Union>p\<in>set ps. dom p) \<union> {''id''}
       \<and> it ''id'' = Some (JString ''a'')
       \<and> (\<forall>f i. f \<noteq> ''id'' \<and> i < length ps \<and> (ps ! i) f \<noteq> None
                \<and> (\<forall>j. i < j \<and> j < length ps \<longrightarrow> (ps ! j) f = None)
              \<longrightarrow> it f = (ps ! i) f)" ..
  from all have st: "contents (table_after tbl recs) (JString ''a'') = Some it"
    by (rule conjunct1)
  from all have dm: "dom it = (\<Union>p\<in>set ps. dom p) \<union> {''id''}"
    by (elim conjE)
  from all have idk: "it ''id'' = Some (JString ''a'')"
    by (elim conjE)
  from all have lw: "\<forall>f i. f \<noteq> ''id'' \<and> i < length ps \<and> (ps ! i) f \<noteq> None
                \<and> (\<forall>j. i < j \<and> j < length ps \<longrightarrow> (ps ! j) f = None)
              \<longrightarrow> it f = (ps ! i) f"
    by (elim conjE)
  from lw [rule_format, of "''fare_amount''" 1] later len p1
  have "it ''fare_amount'' = Some (JString ''4'')" by simp
  moreover from dm doms have "dom it = {''trip_id'', ''fare_amount'', ''tip'', ''id''}"
    by (rule trans)
  ultimately have "\<exists>it. contents (table_after tbl recs) (JString ''a'') = Some it
      \<and> dom it = {''trip_id'', ''fare_amount'', ''tip'', ''id''}
      \<and> it ''id'' = Some (JString ''a'')
      \<and> it ''fare_amount'' = Some (JString ''4'')"
    using st idk by (intro exI [of _ it] conjI)
  then show ?thesis
    unfolding recs_def tbl_def .
qed

text \<open>
  Claim C1 as stated fails: a record that is decoded successfully need not be written.
  A payload with a number written with a fraction decodes to a dictionary that holds a
  Python \<^verbatim>\<open>float\<close>; the serializer of the table resource refuses it, the \<^verbatim>\<open>except\<close>
  clause drops the record, and the field \<open>tip\<close> that the record sent is not in the
  stored record.
\<close>

theorem float_payload_dropped:
  "(\<exists>d. decode_payload (Json_text (JObject [(''trip_id'', JString ''a''), (''tip'', JReal (15 / 2))])) =
          Inr (Json_object d)
        \<and> d ''trip_id'' = Some (JString ''a'') \<and> d ''tip'' = Some (JReal (15 / 2)))
   \<and> (\<exists>it. contents (table_after \<lparr>contents = Map.empty, put_calls = [], key_type = String_key\<rparr>
            [Json_text (JObject [(''trip_id'', JString ''a''), (''fare_amount'', JString ''3'')]),
             Json_text (JObject [(''trip_id'', JString ''a''), (''tip'', JReal (15 / 2))])])
          (JString ''a'') = Some it
        \<and> it ''tip'' = None)"
proof -
  define tbl where "tbl = \<lparr>contents = Map.empty, put_calls = [], key_type = String_key\<rparr>"
  define d1 where "d1 = map_of (rev [(''trip_id'', JString ''a''), (''fare_amount'', JString ''3'')])"
  define d2 where "d2 = map_of (rev [(''trip_id'', JString ''a''), (''tip'', JReal (15 / 2))])"
  define r1 where "r1 = Json_text (JObject [(''trip_id'', JString ''a''), (''fare_amount'', JString ''3'')])"
  define r2 where "r2 = Json_text (JObject [(''trip_id'', JString ''a''), (''tip'', JReal (15 / 2))])"
  define ta where "ta = tbl\<lparr>contents := (contents tbl)(JString ''a'' \<mapsto> merged_with tbl (JString ''a'') d1),
               put_calls := put_calls tbl @ [merged_with tbl (JString ''a'') d1]\<rparr>"
  have dec1: "decode_payload r1 = Inr (Json_object d1)" by (simp add: r1_def d1_def)
  have dec2: "decode_payload r2 = Inr (Json_object d2)" by (simp add: r2_def d2_def)
  have pa: "process_record tbl r1 = Inr ta"
    unfolding ta_def
    by (subst process_record_dict [OF dec1])
       (auto simp: tbl_def d1_def merged_with_def ran_def split: if_splits)
  have bad: "\<exists>v\<in>ran (merged_with ta (JString ''a'') d2). \<not> storable v"
  proof
    show "JReal (15 / 2) \<in> ran (merged_with ta (JString ''a'') d2)"
      by (rule ranI [of _ "''tip''"]) (simp add: merged_with_def d2_def)
    show "\<not> storable (JReal (15 / 2))" by simp
  qed
  have pb: "process_record ta r2 = Inl TypeError"
    using bad
    by (subst process_record_dict [OF dec2]) (simp add: d2_def ta_def tbl_def)
  have after: "table_after tbl [r1, r2] = ta"
    by (simp add: table_after_Cons table_after_Nil pa pb)
  have "contents ta (JString ''a'') = Some (merged_with tbl (JString ''a'') d1)"
    by (simp add: ta_def)
  moreover have "merged_with tbl (JString ''a'') d1 ''tip'' = None"
    by (simp add: merged_with_def tbl_def d1_def)
  ultimately have 2: "\<exists>it. contents (table_after tbl [r1, r2]) (JString ''a'') = Some it \<and> it ''tip'' = None"
    by (simp add: after)
  have 1: "\<exists>d. decode_payload r2 = Inr (Json_object d)
        \<and> d ''trip_id'' = Some (JString ''a'') \<and> d ''tip'' = Some (JReal (15 / 2))"
    by (rule exI [of _ d2]) (simp add: dec2, simp add: d2_def)
  from 1 2 show ?thesis
    unfolding r1_def r2_def tbl_def by (rule conjI)
qed

section \<open>Properties of the Ingestor\<close>

lemma request_of_eq:
  "\<lparr>StreamName = sn, Data = d row, PartitionKey = row_get row ''trip_id'' (JString ''unknown'')\<rparr> =
     request_of sn d row"
proof (cases "map_of row (Some ''trip_id'')")
  case None
  then have "Some ''trip_id'' \<notin> fst ` set row" by (simp add: map_of_eq_None_iff)
  with None show ?thesis by (simp add: request_of_def row_get_def)
next
  case (Some v)
  then have "Some ''trip_id'' \<in> fst ` set row"
    using map_of_eq_None_iff [of row "Some ''trip_id''"] by auto
  with Some show ?thesis by (simp add: request_of_def row_get_def)
qed

lemma send_rows_world:
  "fst (snd (send_rows sn d acc w n rows)) =
     w\<lparr>stream := stream w @ map (request_of sn d) (takeWhile (\<lambda>r. acc (request_of sn d r)) rows)\<rparr>"
proof (induction rows arbitrary: w n)
  case Nil
  show ?case by simp
next
  case (Cons row rows)
  show ?case
  proof (cases "acc (request_of sn d row)")
    case True
    then show ?thesis
      by (simp add: Let_def put_record_def request_of_eq Cons.IH)
  next
    case False
    then show ?thesis
      by (simp add: Let_def put_record_def request_of_eq)
  qed
qed

lemma send_rows_error:
  "fst (send_rows sn d acc w n rows) =
     (if \<forall>r\<in>set rows. acc (request_of sn d r) then None else Some ClientError)"
proof (induction rows arbitrary: w n)
  case Nil
  show ?case by simp
next
  case (Cons row rows)
  show ?case
  proof (cases "acc (request_of sn d row)")
    case True
    then show ?thesis
      by (simp add: Let_def put_record_def request_of_eq Cons.IH)
  next
    case False
    then show ?thesis
      by (simp add: Let_def put_record_def request_of_eq)
  qed
qed

lemma process_file_stream:
  "stream (process_file sn s3 d acc w record) =
     stream w @ map (request_of sn d) (takeWhile (\<lambda>r. acc (request_of sn d r)) (rows_of s3 record))"
proof (cases "s3 (bucket_name record, object_key record)")
  case None
  then show ?thesis by (simp add: process_file_def rows_of_def)
next
  case (Some rows)
  let ?w = "w\<lparr>get_calls := get_calls w @ [(bucket_name record, object_key record)]\<rparr>"
  obtain e w' n where r: "send_rows sn d acc ?w 0 rows = (e, w', n)"
    by (cases "send_rows sn d acc ?w 0 rows")
  from send_rows_world [of sn d acc ?w 0 rows] r
  have "stream w' = stream w @ map (request_of sn d) (takeWhile (\<lambda>r. acc (request_of sn d r)) rows)"
    by simp
  with Some r show ?thesis
    by (simp add: process_file_def rows_of_def split: option.splits)
qed

lemma process_file_error_log:
  assumes "\<exists>r\<in>set (rows_of s3 record). \<not> acc (request_of sn d r)"
  shows "error_log (process_file sn s3 d acc w record) =
           error_log w @ [(object_key record, ClientError)]"
proof (cases "s3 (bucket_name record, object_key record)")
  case None
  then show ?thesis by (simp add: process_file_def)
next
  case (Some rows)
  let ?w = "w\<lparr>get_calls := get_calls w @ [(bucket_name record, object_key record)]\<rparr>"
  obtain e w' n where r: "send_rows sn d acc ?w 0 rows = (e, w', n)"
    by (cases "send_rows sn d acc ?w 0 rows")
  from assms Some have bad: "\<not> (\<forall>r\<in>set rows. acc (request_of sn d r))"
    by (simp add: rows_of_def)
  from send_rows_error [of sn d acc ?w 0 rows] r bad have e: "e = Some ClientError"
    by simp
  from send_rows_world [of sn d acc ?w 0 rows] r have "error_log w' = error_log w"
    by simp
  with Some r e show ?thesis
    by (simp add: process_file_def)
qed

lemma process_files_stream:
  "stream (foldl (process_file sn s3 d acc) w records) =
     stream w @ concat (map (\<lambda>record. map (request_of sn d)
        (takeWhile (\<lambda>r. acc (request_of sn d r)) (rows_of s3 record))) records)"
  by (induction records arbitrary: w) (simp_all add: process_file_stream)

lemma handler_stream:
  assumes "sn \<noteq> []"
  shows "stream (fst (ingestor_handler (Some sn) s3 d acc w records)) =
     stream w @ concat (map (\<lambda>record. map (request_of sn d)
        (takeWhile (\<lambda>r. acc (request_of sn d r)) (rows_of s3 record))) records)"
  using assms by (simp add: ingestor_handler_def process_files_stream)

lemma handler_stream_all_accepted:
  assumes "sn \<noteq> []"
    and "\<forall>record\<in>set records. \<forall>row\<in>set (rows_of s3 record). acc (request_of sn d row)"
  shows "stream (fst (ingestor_handler (Some sn) s3 d acc w records)) =
     stream w @ concat (map (\<lambda>record. map (request_of sn d) (rows_of s3 record)) records)"
proof -
  have "map (\<lambda>record. map (request_of sn d)
          (takeWhile (\<lambda>r. acc (request_of sn d r)) (rows_of s3 record))) records =
        map (\<lambda>record. map (request_of sn d) (rows_of s3 record)) records"
  proof (rule map_cong [OF refl])
    fix rcd :: s3_record assume "rcd \<in> set records"
    with assms(2) have "\<forall>row\<in>set (rows_of s3 rcd). acc (request_of sn d row)" by blast
    then have "takeWhile (\<lambda>r. acc (request_of sn d r)) (rows_of s3 rcd) = rows_of s3 rcd"
      by (simp add: takeWhile_eq_all_conv)
    then show "map (request_of sn d) (takeWhile (\<lambda>r. acc (request_of sn d r)) (rows_of s3 rcd)) =
               map (request_of sn d) (rows_of s3 rcd)"
      by (rule arg_cong)
  qed
  with handler_stream [OF assms(1), of s3 d acc w records] show ?thesis by simp
qed




text \<open>
  Claim C3, as amended. The \<^verbatim>\<open>try\<close> block encloses the whole file: a failed append is
  caught and logged with the key of the file, the rows of that file after the failing one
  are not sent (of a file exactly the rows before its first failing append are appended),
  and the handler goes on with the next file of the event.
\<close>

theorem append_failure_skips_rest_of_file:
  assumes "stream_name \<noteq> []"
  shows "stream (process_file stream_name s3 json_dumps accepts w record) =
           stream w @ map (request_of stream_name json_dumps)
             (takeWhile (\<lambda>row. accepts (request_of stream_name json_dumps row)) (rows_of s3 record))
       \<and> ((\<exists>row\<in>set (rows_of s3 record). \<not> accepts (request_of stream_name json_dumps row)) \<longrightarrow>
            error_log (process_file stream_name s3 json_dumps accepts w record) =
              error_log w @ [(object_key record, ClientError)])
       \<and> fst (ingestor_handler (Some stream_name) s3 json_dumps accepts w (record # records)) =
           fst (ingestor_handler (Some stream_name) s3 json_dumps accepts
                  (process_file stream_name s3 json_dumps accepts w record) records)"
  using assms
  by (simp add: process_file_stream process_file_error_log ingestor_handler_def)

theorem append_failure_skips_rest_of_file_witness:
  "stream (process_file ''trips''
       [(''uploads'', ''day1.csv'') \<mapsto> [[(Some ''trip_id'', JString ''t1'')], [(Some ''trip_id'', JString ''t2'')]],
        (''uploads'', ''day2.csv'') \<mapsto> [[(Some ''trip_id'', JString ''t3'')]]]
       python_json_dumps (\<lambda>req. PartitionKey req \<noteq> JString ''t1'')
       \<lparr>get_calls = [], stream = [], error_log = []\<rparr>
       \<lparr>bucket_name = ''uploads'', object_key = ''day1.csv''\<rparr>) = []
   \<and> error_log (process_file ''trips''
       [(''uploads'', ''day1.csv'') \<mapsto> [[(Some ''trip_id'', JString ''t1'')], [(Some ''trip_id'', JString ''t2'')]],
        (''uploads'', ''day2.csv'') \<mapsto> [[(Some ''trip_id'', JString ''t3'')]]]
       python_json_dumps (\<lambda>req. PartitionKey req \<noteq> JString ''t1'')
       \<lparr>get_calls = [], stream = [], error_log = []\<rparr>
       \<lparr>bucket_name = ''uploads'', object_key = ''day1.csv''\<rparr>) = [(''day1.csv'', ClientError)]
   \<and> stream (fst (ingestor_handler (Some ''trips'')
       [(''uploads'', ''day1.csv'') \<mapsto> [[(Some ''trip_id'', JString ''t1'')], [(Some ''trip_id'', JString ''t2'')]],
        (''uploads'', ''day2.csv'') \<mapsto> [[(Some ''trip_id'', JString ''t3'')]]]
       python_json_dumps (\<lambda>req. PartitionKey req \<noteq> JString ''t1'')
       \<lparr>get_calls = [], stream = [], error_log = []\<rparr>
       [\<lparr>bucket_name = ''uploads'', object_key = ''day1.csv''\<rparr>,
        \<lparr>bucket_name = ''uploads'', object_key = ''day2.csv''\<rparr>])) =
     [\<lparr>StreamName = ''trips'', Data = JObject [(''trip_id'', JString ''t3'')],
       PartitionKey = JString ''t3''\<rparr>]"
proof -
  define s3 :: s3_objects where
    "s3 = [(''uploads'', ''day1.csv'') \<mapsto> [[(Some ''trip_id'', JString ''t1'')], [(Some ''trip_id'', JString ''t2'')]],
        (''uploads'', ''day2.csv'') \<mapsto> [[(Some ''trip_id'', JString ''t3'')]]]"
  define d :: "row \<Rightarrow> json" where "d = python_json_dumps"
  define acc :: "json put_request \<Rightarrow> bool" where
    "acc = (\<lambda>req. PartitionKey req \<noteq> JString ''t1'')"
  define w0 :: "json world" where
    "w0 = \<lparr>get_calls = [], stream = [], error_log = []\<rparr>"
  define r1 where "r1 = \<lparr>bucket_name = ''uploads'', object_key = ''day1.csv''\<rparr>"
  define r2 where "r2 = \<lparr>bucket_name = ''uploads'', object_key = ''day2.csv''\<rparr>"
  have rows1: "rows_of s3 r1 = [[(Some ''trip_id'', JString ''t1'')], [(Some ''trip_id'', JString ''t2'')]]"
    by (simp add: rows_of_def s3_def r1_def)
  have rows2: "rows_of s3 r2 = [[(Some ''trip_id'', JString ''t3'')]]"
    by (simp add: rows_of_def s3_def r2_def)
  have rej: "\<not> acc (request_of ''trips'' d [(Some ''trip_id'', JString ''t1'')])"
    by (simp add: acc_def request_of_def)
  have ok3: "acc (request_of ''trips'' d [(Some ''trip_id'', JString ''t3'')])"
    by (simp add: acc_def request_of_def)
  have h: "''trips'' \<noteq> []" by simp
  note thm1 = append_failure_skips_rest_of_file [OF h, of s3 d acc w0 r1 "[r2]"]
  from thm1 have "stream (process_file ''trips'' s3 d acc w0 r1) =
      stream w0 @ map (request_of ''trips'' d)
        (takeWhile (\<lambda>row. acc (request_of ''trips'' d row)) (rows_of s3 r1))"
    by (rule conjunct1)
  then have a: "stream (process_file ''trips'' s3 d acc w0 r1) = []"
    by (simp add: rows1 rej w0_def)
  from thm1 have imp: "(\<exists>row\<in>set (rows_of s3 r1). \<not> acc (request_of ''trips'' d row)) \<longrightarrow>
      error_log (process_file ''trips'' s3 d acc w0 r1) =
        error_log w0 @ [(object_key r1, ClientError)]"
    by (elim conjE)
  have ex: "\<exists>row\<in>set (rows_of s3 r1). \<not> acc (request_of ''trips'' d row)"
    using rej by (simp add: rows1)
  from imp ex have "error_log (process_file ''trips'' s3 d acc w0 r1) =
        error_log w0 @ [(object_key r1, ClientError)]"
    by (rule mp)
  then have b: "error_log (process_file ''trips'' s3 d acc w0 r1) = [(''day1.csv'', ClientError)]"
    by (simp add: w0_def r1_def)
  from thm1 have step: "fst (ingestor_handler (Some ''trips'') s3 d acc w0 (r1 # [r2])) =
      fst (ingestor_handler (Some ''trips'') s3 d acc (process_file ''trips'' s3 d acc w0 r1) [r2])"
    by (elim conjE)
  from step have "stream (fst (ingestor_handler (Some ''trips'') s3 d acc w0 [r1, r2])) =
      stream (fst (ingestor_handler (Some ''trips'') s3 d acc
                  (process_file ''trips'' s3 d acc w0 r1) [r2]))"
    by simp
  also have "\<dots> = stream (process_file ''trips'' s3 d acc (process_file ''trips'' s3 d acc w0 r1) r2)"
    by (simp add: ingestor_handler_def)
  also have "\<dots> = stream (process_file ''trips'' s3 d acc w0 r1) @ map (request_of ''trips'' d)
        (takeWhile (\<lambda>row. acc (request_of ''trips'' d row)) (rows_of s3 r2))"
    by (rule process_file_stream)
  also have "\<dots> = [request_of ''trips'' d [(Some ''trip_id'', JString ''t3'')]]"
    by (simp add: a rows2 ok3)
  also have "\<dots> = [\<lparr>StreamName = ''trips'', Data = JObject [(''trip_id'', JString ''t3'')],
       PartitionKey = JString ''t3''\<rparr>]"
    by (simp add: request_of_def d_def python_json_dumps_def)
  finally have c: "stream (fst (ingestor_handler (Some ''trips'') s3 d acc w0 [r1, r2])) =
     [\<lparr>StreamName = ''trips'', Data = JObject [(''trip_id'', JString ''t3'')],
       PartitionKey = JString ''t3''\<rparr>]" .
  from a b c show ?thesis
    by (simp only: s3_def d_def acc_def w0_def r1_def r2_def)
qed

text \<open>
  Claim C3 as stated fails: in a file of two rows where the append of the first row
  fails, the second row is not appended although the service would accept it.
\<close>

theorem row_after_failed_append_not_sent:
  "\<not> (\<lambda>req. PartitionKey req \<noteq> JString ''t1'')
        (request_of ''trips'' python_json_dumps [(Some ''trip_id'', JString ''t1'')])
   \<and> (\<lambda>req. PartitionKey req \<noteq> JString ''t1'')
        (request_of ''trips'' python_json_dumps [(Some ''trip_id'', JString ''t2'')])
   \<and> request_of ''trips'' python_json_dumps [(Some ''trip_id'', JString ''t2'')]
       \<notin> set (stream (fst (ingestor_handler (Some ''trips'')
             [(''uploads'', ''day1.csv'') \<mapsto> [[(Some ''trip_id'', JString ''t1'')], [(Some ''trip_id'', JString ''t2'')]]]
             python_json_dumps (\<lambda>req. PartitionKey req \<noteq> JString ''t1'')
             \<lparr>get_calls = [], stream = [], error_log = []\<rparr>
             [\<lparr>bucket_name = ''uploads'', object_key = ''day1.csv''\<rparr>])))"
  by (simp add: ingestor_handler_def process_file_def put_record_def row_get_def request_of_def)

text \<open>
  Claim C7, as amended. When the stream name is not set or is the empty string, the
  handler returns the error response and leaves the world as it found it (no
  \<^verbatim>\<open>get_object\<close> call, no record appended); otherwise it returns \<^verbatim>\<open>{"status": "done"}\<close>.
\<close>

theorem missing_stream_name_short_circuits:
  "(env = None \<or> env = Some [] \<longrightarrow>
      ingestor_handler env s3 json_dumps accepts w records =
        (w, [(''status'', ''error''), (''message'', ''Stream name not configured'')]))
   \<and> (env \<noteq> None \<and> env \<noteq> Some [] \<longrightarrow>
      snd (ingestor_handler env s3 json_dumps accepts w records) = [(''status'', ''done'')])"
  by (auto simp: ingestor_handler_def split: option.splits)

theorem missing_stream_name_short_circuits_witness:
  "ingestor_handler None
        [(''uploads'', ''day1.csv'') \<mapsto> [[(Some ''trip_id'', JString ''t1'')]]]
        python_json_dumps (\<lambda>req. True)
        \<lparr>get_calls = [], stream = [], error_log = []\<rparr>
        [\<lparr>bucket_name = ''uploads'', object_key = ''day1.csv''\<rparr>] =
      (\<lparr>get_calls = [], stream = [], error_log = []\<rparr>,
       [(''status'', ''error''), (''message'', ''Stream name not configured'')])
   \<and> snd (ingestor_handler (Some ''trips'')
        [(''uploads'', ''day1.csv'') \<mapsto> [[(Some ''trip_id'', JString ''t1'')]]]
        python_json_dumps (\<lambda>req. True)
        \<lparr>get_calls = [], stream = [], error_log = []\<rparr>
        [\<lparr>bucket_name = ''uploads'', object_key = ''day1.csv''\<rparr>]) = [(''status'', ''done'')]"
proof -
  define s3 :: s3_objects where "s3 = [(''uploads'', ''day1.csv'') \<mapsto> [[(Some ''trip_id'', JString ''t1'')]]]"
  define d :: "row \<Rightarrow> json" where "d = python_json_dumps"
  define acc :: "json put_request \<Rightarrow> bool" where "acc = (\<lambda>req. True)"
  define w0 :: "json world" where
    "w0 = \<lparr>get_calls = [], stream = [], error_log = []\<rparr>"
  define rs where "rs = [\<lparr>bucket_name = ''uploads'', object_key = ''day1.csv''\<rparr>]"
  from missing_stream_name_short_circuits [of None s3 d acc w0 rs]
  have a: "ingestor_handler None s3 d acc w0 rs =
      (w0, [(''status'', ''error''), (''message'', ''Stream name not configured'')])"
    by simp
  from missing_stream_name_short_circuits [of "Some ''trips''" s3 d acc w0 rs]
  have b: "snd (ingestor_handler (Some ''trips'') s3 d acc w0 rs) = [(''status'', ''done'')]"
    by simp
  from a b show ?thesis
    by (simp only: s3_def d_def acc_def w0_def rs_def)
qed

text \<open>
  Claim C7 as stated fails: with the variable set to the empty string the configuration
  is not absent, yet the handler returns the error response, not \<^verbatim>\<open>{"status": "done"}\<close>.
\<close>

theorem empty_stream_name_is_error:
  "(Some '''' :: string option) \<noteq> None
   \<and> ingestor_handler (Some '''')
        [(''uploads'', ''day1.csv'') \<mapsto> [[(Some ''trip_id'', JString ''t1'')]]]
        python_json_dumps (\<lambda>req. True)
        \<lparr>get_calls = [], stream = [], error_log = []\<rparr>
        [\<lparr>bucket_name = ''uploads'', object_key = ''day1.csv''\<rparr>] =
      (\<lparr>get_calls = [], stream = [], error_log = []\<rparr>,
       [(''status'', ''error''), (''message'', ''Stream name not configured'')])
   \<and> snd (ingestor_handler (Some '''')
        [(''uploads'', ''day1.csv'') \<mapsto> [[(Some ''trip_id'', JString ''t1'')]]]
        python_json_dumps (\<lambda>req. True)
        \<lparr>get_calls = [], stream = [], error_log = []\<rparr>
        [\<lparr>bucket_name = ''uploads'', object_key = ''day1.csv''\<rparr>]) \<noteq> [(''status'', ''done'')]"
  by (simp add: ingestor_handler_def)

lemma json_loads_dumps_fields:
  assumes "None \<notin> fst ` set row" and "distinct (map fst row)"
  shows "map_of (rev (map (\<lambda>(k, v). (case k of None \<Rightarrow> ''null'' | Some c \<Rightarrow> c, v)) row)) f =
           map_of row (Some f)"
  using assms
proof (induction row)
  case Nil
  show ?case by simp
next
  case (Cons x xs)
  obtain k v where x: "x = (k, v)" by (cases x)
  from Cons.prems(1) x obtain c where k: "k = Some c" by (cases k) auto
  from Cons.prems have IH: "map_of (rev (map (\<lambda>(k, v). (case k of None \<Rightarrow> ''null'' | Some c \<Rightarrow> c, v)) xs)) f =
           map_of xs (Some f)"
    by (intro Cons.IH) auto
  from Cons.prems(2) x k have fresh: "map_of xs (Some c) = None"
    by (simp add: map_of_eq_None_iff)
  show ?case
    by (simp add: x k map_of_append map_add_def IH fresh split: option.splits)
qed

lemma json_loads_dumps:
  assumes "None \<notin> fst ` set row" and "distinct (map fst row)"
  shows "json_loads (python_json_dumps row) = Json_object (row_fields row)"
proof -
  have "map_of (rev (map (\<lambda>(k, v). (case k of None \<Rightarrow> ''null'' | Some c \<Rightarrow> c, v)) row)) =
        row_fields row"
    unfolding row_fields_def
    by (rule ext) (rule json_loads_dumps_fields [OF assms])
  then show ?thesis by (simp add: python_json_dumps_def)
qed

lemma is_text_storable: "is_text v \<Longrightarrow> storable v"
  by (cases v) auto

lemma csv_row_storable:
  assumes "csv_row row" and "v \<in> ran (row_fields row)"
  shows "storable v"
proof -
  from assms(2) obtain f where "map_of row (Some f) = Some v"
    by (auto simp: ran_def row_fields_def)
  then have "(Some f, v) \<in> set row" by (rule map_of_SomeD)
  with assms(1) have "is_cell (Some f, v)"
    by (auto simp: csv_row_def list_all_iff)
  then show ?thesis by (auto simp: is_text_storable)
qed

lemma merge_fresh_fields:
  assumes "decode_payload r = Inr (Json_object d)" and "d ''trip_id'' = Some k"
    and "snd (fst (merger_handler tbl [r])) = []" and "contents tbl k = None"
  shows "contents (table_after tbl [r]) k = Some (d(''id'' \<mapsto> k))"
proof -
  from assms(3) have "snd (process_records (tbl, []) [r]) = []"
    by (simp add: merger_handler_def)
  from no_error_Cons [OF this] obtain t1 where step: "process_record tbl r = Inr t1"
    by blast
  note t1 = written_record [OF step assms(1,2)]
  have m: "merged_with tbl k d = d(''id'' \<mapsto> k)"
    by (simp add: merged_with_def assms(4))
  show ?thesis
    by (simp add: table_after_Cons table_after_Nil step t1 m)
qed

lemma written_fresh_if_storable:
  assumes "decode_payload r = Inr (Json_object d)" and "d ''trip_id'' = Some k"
    and "\<forall>v\<in>ran d. storable v" and "valid_key (key_type tbl) k" and "contents tbl k = None"
  shows "snd (fst (merger_handler tbl [r])) = []"
proof -
  from assms(5) have "\<forall>it. contents tbl k = Some it \<longrightarrow> (\<forall>v\<in>ran it. storable v)"
    by simp
  from written_if_storable [OF assms(1,2,3,4) this] show ?thesis
    by (simp add: merger_handler_def)
qed

text \<open>
  Claim C2, as amended. A row that the Ingestor reads from a file of the event, with
  no surplus cell and with the \<open>trip_id\<close> \<open>k\<close>, is appended to the stream with partition
  key \<open>k\<close> (every append being accepted). Its payload is the text that \<^verbatim>\<open>json.dumps\<close>
  writes, which \<^verbatim>\<open>json.loads\<close> reads back as the row's dictionary. When the Merger
  processes that record without logging an error, on a table with no record under \<open>k\<close>,
  the record stored under \<open>k\<close> is the row with the field \<open>id\<close> set to \<open>k\<close>.
\<close>

theorem ingest_then_merge_round_trip:
  assumes "stream_name \<noteq> []" and "record \<in> set records" and "row \<in> set (rows_of s3 record)"
    and "csv_row row" and "None \<notin> fst ` set row"
    and "map_of row (Some ''trip_id'') = Some k"
    and "\<forall>record\<in>set records. \<forall>r\<in>set (rows_of s3 record).
           accepts (request_of stream_name python_json_dumps r)"
    and "snd (fst (merger_handler tbl
                [Json_text (Data (request_of stream_name python_json_dumps row))])) = []"
    and "contents tbl k = None"
  shows "request_of stream_name python_json_dumps row
           \<in> set (stream (fst (ingestor_handler (Some stream_name) s3 python_json_dumps accepts w records)))
       \<and> PartitionKey (request_of stream_name python_json_dumps row) = k
       \<and> contents (table_after tbl [Json_text (Data (request_of stream_name python_json_dumps row))]) k =
           Some ((row_fields row)(''id'' \<mapsto> k))"
proof -
  from assms(2,3) have "request_of stream_name python_json_dumps row
      \<in> set (concat (map (\<lambda>record. map (request_of stream_name python_json_dumps) (rows_of s3 record)) records))"
    by auto
  then have "request_of stream_name python_json_dumps row
           \<in> set (stream (fst (ingestor_handler (Some stream_name) s3 python_json_dumps accepts w records)))"
    by (simp add: handler_stream_all_accepted [OF assms(1,7)])
  moreover from assms(6) have "Some ''trip_id'' \<in> fst ` set row"
    using map_of_eq_None_iff [of row "Some ''trip_id''"] by auto
  with assms(6) have "PartitionKey (request_of stream_name python_json_dumps row) = k"
    by (simp add: request_of_def)
  moreover have "contents (table_after tbl [Json_text (Data (request_of stream_name python_json_dumps row))]) k =
           Some ((row_fields row)(''id'' \<mapsto> k))"
  proof -
    from assms(4) have dist: "distinct (map fst row)" by (simp add: csv_row_def)
    have dec: "decode_payload (Json_text (python_json_dumps row)) = Inr (Json_object (row_fields row))"
      by (simp add: json_loads_dumps [OF assms(5) dist])
    have k: "row_fields row ''trip_id'' = Some k"
      by (simp add: row_fields_def assms(6))
    from assms(8) have ok: "snd (fst (merger_handler tbl [Json_text (python_json_dumps row)])) = []"
      by (simp add: request_of_def)
    from merge_fresh_fields [OF dec k ok assms(9)] show ?thesis
      by (simp add: request_of_def)
  qed
  ultimately show ?thesis by blast
qed

theorem ingest_then_merge_round_trip_witness:
  "request_of ''trips'' python_json_dumps
        [(Some ''trip_id'', JString ''t1''), (Some ''fare_amount'', JString ''3'')]
      \<in> set (stream (fst (ingestor_handler (Some ''trips'')
           [(''uploads'', ''day1.csv'') \<mapsto>
              [[(Some ''trip_id'', JString ''t0''), (Some ''fare_amount'', JString ''2'')],
               [(Some ''trip_id'', JString ''t1''), (Some ''fare_amount'', JString ''3'')]]]
           python_json_dumps partition_key_accepted
           \<lparr>get_calls = [], stream = [], error_log = []\<rparr>
           [\<lparr>bucket_name = ''uploads'', object_key = ''day1.csv''\<rparr>])))
   \<and> contents (table_after \<lparr>contents = Map.empty, put_calls = [], key_type = String_key\<rparr>
         [Json_text (Data (request_of ''trips'' python_json_dumps
                  [(Some ''trip_id'', JString ''t1''), (Some ''fare_amount'', JString ''3'')]))])
         (JString ''t1'') =
       Some [''trip_id'' \<mapsto> JString ''t1'', ''fare_amount'' \<mapsto> JString ''3'',
             ''id'' \<mapsto> JString ''t1'']"
proof -
  define s3 :: s3_objects where
    "s3 = [(''uploads'', ''day1.csv'') \<mapsto>
              [[(Some ''trip_id'', JString ''t0''), (Some ''fare_amount'', JString ''2'')],
               [(Some ''trip_id'', JString ''t1''), (Some ''fare_amount'', JString ''3'')]]]"
  define w0 :: "json world" where "w0 = \<lparr>get_calls = [], stream = [], error_log = []\<rparr>"
  define rcd where "rcd = \<lparr>bucket_name = ''uploads'', object_key = ''day1.csv''\<rparr>"
  define tbl where "tbl = \<lparr>contents = Map.empty, put_calls = [], key_type = String_key\<rparr>"
  define row :: row where
    "row = [(Some ''trip_id'', JString ''t1''), (Some ''fare_amount'', JString ''3'')]"
  have rows: "rows_of s3 rcd =
              [[(Some ''trip_id'', JString ''t0''), (Some ''fare_amount'', JString ''2'')], row]"
    by (simp add: rows_of_def s3_def rcd_def row_def)
  have h1: "''trips'' \<noteq> []" by simp
  have h2: "rcd \<in> set [rcd]" by simp
  have h3: "row \<in> set (rows_of s3 rcd)" by (simp add: rows)
  have h4: "csv_row row" by (simp add: csv_row_def row_def)
  have h5: "None \<notin> fst ` set row" by (simp add: row_def)
  have h6: "map_of row (Some ''trip_id'') = Some (JString ''t1'')" by (simp add: row_def)
  have h7: "\<forall>record\<in>set [rcd]. \<forall>r\<in>set (rows_of s3 record).
      partition_key_accepted (request_of ''trips'' python_json_dumps r)"
    by (simp add: rows row_def partition_key_accepted_def request_of_def)
  have h9: "contents tbl (JString ''t1'') = None" by (simp add: tbl_def)
  have dist: "distinct (map fst row)" by (simp add: row_def)
  have dec: "decode_payload (Json_text (python_json_dumps row)) = Inr (Json_object (row_fields row))"
    by (simp add: json_loads_dumps [OF h5 dist])
  have key: "row_fields row ''trip_id'' = Some (JString ''t1'')"
    by (simp add: row_fields_def row_def)
  have st: "\<forall>v\<in>ran (row_fields row). storable v"
    using csv_row_storable [OF h4] by blast
  have vk: "valid_key (key_type tbl) (JString ''t1'')" by (simp add: tbl_def)
  have "snd (fst (merger_handler tbl [Json_text (python_json_dumps row)])) = []"
    by (rule written_fresh_if_storable [OF dec key st vk h9])
  then have h8: "snd (fst (merger_handler tbl
        [Json_text (Data (request_of ''trips'' python_json_dumps row))])) = []"
    by (simp add: request_of_def)
  have fields: "(row_fields row)(''id'' \<mapsto> JString ''t1'') =
      [''trip_id'' \<mapsto> JString ''t1'', ''fare_amount'' \<mapsto> JString ''3'', ''id'' \<mapsto> JString ''t1'']"
    by (rule ext) (simp add: row_fields_def row_def)
  from ingest_then_merge_round_trip [OF h1 h2 h3 h4 h5 h6 h7 h8 h9, of w0]
  have "request_of ''trips'' python_json_dumps row
         \<in> set (stream (fst (ingestor_handler (Some ''trips'') s3 python_json_dumps
                                partition_key_accepted w0 [rcd])))
      \<and> contents (table_after tbl [Json_text (Data (request_of ''trips'' python_json_dumps row))])
           (JString ''t1'') =
           Some [''trip_id'' \<mapsto> JString ''t1'', ''fare_amount'' \<mapsto> JString ''3'',
                 ''id'' \<mapsto> JString ''t1'']"
    by (simp only: fields)
  then show ?thesis
    unfolding s3_def w0_def rcd_def tbl_def row_def .
qed

text \<open>
  Claim C2 as stated fails: for a line with more cells than the header the reader puts
  the list of the surplus cells under the key \<^verbatim>\<open>None\<close>, which \<^verbatim>\<open>json.dumps\<close> writes as
  the member name \<open>null\<close>. The row is appended and merged, and the stored record has a
  field \<open>null\<close>, which the row has not.
\<close>

theorem long_line_field_renamed:
  "csv_row [(Some ''trip_id'', JString ''t1''), (None, JArray [JString ''x''])]
   \<and> request_of ''trips'' python_json_dumps
        [(Some ''trip_id'', JString ''t1''), (None, JArray [JString ''x''])]
      \<in> set (stream (fst (ingestor_handler (Some ''trips'')
           [(''uploads'', ''day1.csv'') \<mapsto>
              [[(Some ''trip_id'', JString ''t1''), (None, JArray [JString ''x''])]]]
           python_json_dumps partition_key_accepted
           \<lparr>get_calls = [], stream = [], error_log = []\<rparr>
           [\<lparr>bucket_name = ''uploads'', object_key = ''day1.csv''\<rparr>])))
   \<and> row_fields [(Some ''trip_id'', JString ''t1''), (None, JArray [JString ''x''])] ''null'' = None
   \<and> (\<exists>it. contents (table_after \<lparr>contents = Map.empty, put_calls = [], key_type = String_key\<rparr>
         [Json_text (Data (request_of ''trips'' python_json_dumps
                  [(Some ''trip_id'', JString ''t1''), (None, JArray [JString ''x''])]))])
         (JString ''t1'') = Some it
        \<and> it ''null'' = Some (JArray [JString ''x'']))"
proof -
  define tbl where "tbl = \<lparr>contents = Map.empty, put_calls = [], key_type = String_key\<rparr>"
  define d where "d = map_of (rev [(''trip_id'', JString ''t1''), (''null'', JArray [JString ''x''])])"
  define r where "r = Json_text (Data (request_of ''trips'' python_json_dumps
                  [(Some ''trip_id'', JString ''t1''), (None, JArray [JString ''x''])]))"
  have dec: "decode_payload r = Inr (Json_object d)"
    by (simp add: r_def d_def request_of_def python_json_dumps_def)
  have k: "d ''trip_id'' = Some (JString ''t1'')" by (simp add: d_def)
  have st: "\<forall>v\<in>ran d. storable v"
    by (auto simp: d_def ran_def split: if_splits)
  have vk: "valid_key (key_type tbl) (JString ''t1'')" by (simp add: tbl_def)
  have fresh: "contents tbl (JString ''t1'') = None" by (simp add: tbl_def)
  from merge_fresh_fields [OF dec k written_fresh_if_storable [OF dec k st vk fresh] fresh]
  have "contents (table_after tbl [r]) (JString ''t1'') = Some (d(''id'' \<mapsto> JString ''t1''))" .
  moreover have "(d(''id'' \<mapsto> JString ''t1'')) ''null'' = Some (JArray [JString ''x''])"
    by (simp add: d_def)
  ultimately have 4: "\<exists>it. contents (table_after tbl [r]) (JString ''t1'') = Some it
        \<and> it ''null'' = Some (JArray [JString ''x''])"
    by simp
  have 1: "csv_row [(Some ''trip_id'', JString ''t1''), (None, JArray [JString ''x''])]"
    by (simp add: csv_row_def)
  have 2: "request_of ''trips'' python_json_dumps
        [(Some ''trip_id'', JString ''t1''), (None, JArray [JString ''x''])]
      \<in> set (stream (fst (ingestor_handler (Some ''trips'')
           [(''uploads'', ''day1.csv'') \<mapsto>
              [[(Some ''trip_id'', JString ''t1''), (None, JArray [JString ''x''])]]]
           python_json_dumps partition_key_accepted
           \<lparr>get_calls = [], stream = [], error_log = []\<rparr>
           [\<lparr>bucket_name = ''uploads'', object_key = ''day1.csv''\<rparr>])))"
    by (simp add: request_of_def ingestor_handler_def process_file_def put_record_def
        row_get_def partition_key_accepted_def Let_def)
  have 3: "row_fields [(Some ''trip_id'', JString ''t1''), (None, JArray [JString ''x''])] ''null'' = None"
    by (simp add: row_fields_def)
  from 1 2 3 4 show ?thesis
    unfolding tbl_def r_def by (intro conjI)
qed

section \<open>Properties of the Aggregator\<close>

lemma to_datetime_values_ok:
  "Unparseable_datetime \<notin> set column \<Longrightarrow> to_datetime_values column = Inr (map time_of column)"
  by (induction column rule: to_datetime_values.induct) auto

lemma to_datetime_values_bad:
  "Unparseable_datetime \<in> set column \<Longrightarrow> to_datetime_values column = Inl ValueError"
  by (induction column rule: to_datetime_values.induct) auto

lemma to_datetime_bad:
  "Unparseable_datetime \<in> set column \<Longrightarrow> to_datetime column = Inl ValueError"
  by (auto simp: to_datetime_def to_datetime_values_bad)

lemma to_datetime_all_parsed:
  assumes "column \<noteq> []" and "\<forall>x\<in>set column. \<exists>t. x = Datetime t"
  shows "to_datetime column = Inr (map time_of column)"
proof -
  from assms obtain x where "x \<in> set column" "x \<noteq> No_datetime"
    by (cases column) auto
  moreover from assms(2) have "Unparseable_datetime \<notin> set column" by auto
  ultimately show ?thesis
    by (auto simp: to_datetime_def to_datetime_values_ok)
qed

lemma upload_kpis_configured:
  "upload_kpis (Some bucket) s3 rows =
     (None, foldl (\<lambda>s row. put_object s bucket (kpi_path (kpi_pickup_datetime row)) row) s3 rows)"
  by (induction rows arbitrary: s3) (simp_all add: kpi_path_def)

lemma upload_calls:
  "put_object_calls (foldl (\<lambda>s row. put_object s bucket (kpi_path (kpi_pickup_datetime row)) row) s3 rows) =
     put_object_calls s3 @ map (\<lambda>row. (bucket, kpi_path (kpi_pickup_datetime row), row)) rows"
  by (induction rows arbitrary: s3) (simp_all add: put_object_def)

lemma upload_objects:
  "objects (foldl (\<lambda>s row. put_object s bucket (kpi_path (kpi_pickup_datetime row)) row) s3 rows) (bucket, p) =
     (if filter (\<lambda>row. kpi_path (kpi_pickup_datetime row) = p) rows = []
      then objects s3 (bucket, p)
      else Some (last (filter (\<lambda>row. kpi_path (kpi_pickup_datetime row) = p) rows)))"
proof (induction rows rule: rev_induct)
  case Nil
  show ?case by simp
next
  case (snoc row rows)
  show ?case
  proof (cases "kpi_path (kpi_pickup_datetime row) = p")
    case True
    then show ?thesis
      by (simp add: put_object_def)
  next
    case False
    with snoc show ?thesis
      by (simp add: put_object_def)
  qed
qed

lemma zip_map_same: "zip (map f xs) (map g xs) = map (\<lambda>x. (f x, g x)) xs"
  by (induction xs) simp_all

lemma time_of_Some: "time_of x = Some t \<longleftrightarrow> x = Datetime t"
  by (cases x) auto

lemma Some_time_of: "Some t = time_of x \<longleftrightarrow> x = Datetime t"
  by (cases x) auto

lemma keys_of_frame:
  "set [key. (Some key, fare) \<leftarrow> map (\<lambda>item. (time_of (pickup_datetime item), g item)) items] =
     timestamps_of items"
  by (auto simp: timestamps_of_def time_of_Some Some_time_of split: option.splits)

lemma fares_of_frame:
  "non_nan [fare. (t, fare) \<leftarrow> map (\<lambda>item. (time_of (pickup_datetime item),
                                                 to_numeric_coerce (fare_amount item))) items,
            t = Some key] =
     group_fares items key"
proof (induction items)
  case Nil
  show ?case by (simp add: non_nan_def group_fares_def)
next
  case (Cons item items)
  then show ?case
    by (cases "fare_amount item")
       (auto simp: non_nan_def group_fares_def time_of_Some)
qed

lemma fold_max_Max: "fold max ys (y::rat) = Max (set (y # ys))"
  by (simp only: Max.set_eq_fold)

lemma fold_min_Min: "fold min ys (y::rat) = Min (set (y # ys))"
  by (simp only: Min.set_eq_fold)

lemma agg_max_Max: "agg_max xs = (if non_nan xs = [] then None else Some (Max (set (non_nan xs))))"
  by (simp add: agg_max_def fold_max_Max split: list.splits)

lemma agg_min_Min: "agg_min xs = (if non_nan xs = [] then None else Some (Min (set (non_nan xs))))"
  by (simp add: agg_min_def fold_min_Min split: list.splits)

lemma groupby_agg_frame:
  "groupby_agg fs fm (zip (map time_of (map pickup_datetime items))
                    (map (\<lambda>item. to_numeric_coerce (fare_amount item)) items)) =
     map (\<lambda>key. \<lparr>kpi_pickup_datetime = key,
                  total_fare = fs (group_fares items key),
                  count_trips = length (group_fares items key),
                  average_fare = (if group_fares items key = [] then None
                      else Some (fm (group_fares items key))),
                  max_fare = (if group_fares items key = [] then None
                      else Some (Max (set (group_fares items key)))),
                  min_fare = (if group_fares items key = [] then None
                      else Some (Min (set (group_fares items key))))\<rparr>)
         (sorted_list_of_set (timestamps_of items))"
proof -
  have frame: "zip (map time_of (map pickup_datetime items))
                    (map (\<lambda>item. to_numeric_coerce (fare_amount item)) items) =
               map (\<lambda>item. (time_of (pickup_datetime item), to_numeric_coerce (fare_amount item))) items"
    by (simp add: zip_map_same [symmetric] del: map_map) (simp add: comp_def)
  show ?thesis
    unfolding groupby_agg_def frame Let_def agg_sum_def agg_count_def agg_mean_def
      agg_max_Max agg_min_Min fares_of_frame
      sorted_list_of_set_sort_remdups [symmetric] keys_of_frame
    by (rule refl)
qed

lemma group_fares_nonempty:
  assumes "\<forall>item\<in>set items. \<exists>x. fare_amount item = Numeric x" and "t \<in> timestamps_of items"
  shows "group_fares items t \<noteq> []"
proof -
  from assms(2) obtain item where item: "item \<in> set items" "pickup_datetime item = Datetime t"
    by (auto simp: timestamps_of_def)
  with assms(1) obtain x where "fare_amount item = Numeric x" by auto
  with item have "x \<in> set (group_fares items t)"
    by (force simp: group_fares_def)
  then show ?thesis by auto
qed

lemma groupby_agg_parsed:
  assumes "\<forall>item\<in>set items. \<exists>x. fare_amount item = Numeric x"
  shows "groupby_agg fs fm (zip (map time_of (map pickup_datetime items))
                    (map (\<lambda>item. to_numeric_coerce (fare_amount item)) items)) =
         map (group_kpi fs fm items) (sorted_list_of_set (timestamps_of items))"
proof -
  have fin: "finite (timestamps_of items)"
  proof -
    have "timestamps_of items \<subseteq> (\<lambda>item. case pickup_datetime item of Datetime t \<Rightarrow> t | _ \<Rightarrow> undefined) ` set items"
      by (force simp: timestamps_of_def)
    then show ?thesis by (rule finite_subset) simp
  qed
  show ?thesis
    unfolding groupby_agg_frame
  proof (rule map_cong [OF refl])
    fix key assume "key \<in> set (sorted_list_of_set (timestamps_of items))"
    with fin have "key \<in> timestamps_of items" by simp
    from group_fares_nonempty [OF assms this]
    show "\<lparr>kpi_pickup_datetime = key,
                  total_fare = fs (group_fares items key),
                  count_trips = length (group_fares items key),
                  average_fare = (if group_fares items key = [] then None
                      else Some (fm (group_fares items key))),
                  max_fare = (if group_fares items key = [] then None
                      else Some (Max (set (group_fares items key)))),
                  min_fare = (if group_fares items key = [] then None
                      else Some (Min (set (group_fares items key))))\<rparr> = group_kpi fs fm items key"
      by (simp add: group_kpi_def)
  qed
qed

lemma digit_cases:
  assumes "n < 10"
  shows "n \<in> {0, 1, 2, 3, 4, 5, 6, 7, 8, 9::nat}"
  using assms by auto

lemma digit_value_digit_char: "n < 10 \<Longrightarrow> digit_value (digit_char n) = n"
  using digit_cases [of n] by (auto simp: digit_char_def digit_value_def)

lemma digit_char_not_dash: "n < 10 \<Longrightarrow> digit_char n \<noteq> CHR ''-''"
  using digit_cases [of n] by (auto simp: digit_char_def)

lemma read_nat_snoc: "read_nat (s @ [c]) = 10 * read_nat s + digit_value c"
  by (simp add: read_nat_def)

lemma read_nat_show_nat: "read_nat (show_nat n) = n"
proof (induction n rule: show_nat.induct)
  case (1 n)
  show ?case
  proof (cases "n < 10")
    case True
    then show ?thesis
      by (simp add: show_nat.simps [of n] read_nat_def digit_value_digit_char)
  next
    case False
    with "1" have "read_nat (show_nat (n div 10)) = n div 10" by simp
    with False show ?thesis
      by (simp add: show_nat.simps [of n] read_nat_snoc digit_value_digit_char)
  qed
qed

lemma read_nat_zeros: "read_nat (replicate k CHR ''0'' @ s) = read_nat s"
proof -
  have "foldl (\<lambda>n c. 10 * n + digit_value c) 0 (replicate k CHR ''0'') = 0"
    by (induction k) (simp_all add: digit_value_def)
  then show ?thesis by (simp add: read_nat_def)
qed

lemma read_nat_zero_pad: "read_nat (zero_pad w n) = n"
  by (simp add: zero_pad_def read_nat_zeros read_nat_show_nat)

lemma show_nat_no_dash: "CHR ''-'' \<notin> set (show_nat n)"
proof (induction n rule: show_nat.induct)
  case (1 n)
  show ?case
  proof (cases "n < 10")
    case True
    then show ?thesis
      using digit_char_not_dash [of n] by (auto simp: show_nat.simps [of n])
  next
    case False
    with "1" have "CHR ''-'' \<notin> set (show_nat (n div 10))" by simp
    with False show ?thesis
      using digit_char_not_dash [of "n mod 10"] by (auto simp: show_nat.simps [of n])
  qed
qed

lemma zero_pad_no_dash: "CHR ''-'' \<notin> set (zero_pad w n)"
  using show_nat_no_dash [of n] by (auto simp: zero_pad_def)

lemma split_at_dash:
  assumes "a @ CHR ''-'' # b = a' @ CHR ''-'' # b'"
    and "CHR ''-'' \<notin> set a" and "CHR ''-'' \<notin> set a'"
  shows "a = a' \<and> b = b'"
proof -
  have cut: "takeWhile (\<lambda>c. c \<noteq> CHR ''-'') (xs @ CHR ''-'' # ys) = xs"
    if "CHR ''-'' \<notin> set xs" for xs ys :: string
    using that by (induction xs) auto
  have "takeWhile (\<lambda>c. c \<noteq> CHR ''-'') (a @ CHR ''-'' # b) = a"
    using assms(2) by (rule cut)
  moreover have "takeWhile (\<lambda>c. c \<noteq> CHR ''-'') (a' @ CHR ''-'' # b') = a'"
    using assms(3) by (rule cut)
  ultimately have "a = a'" using assms(1) by simp
  with assms(1) show ?thesis by simp
qed

lemma strftime_date_same_day: "strftime_date t = strftime_date t' \<longleftrightarrow> same_day t t'"
proof -
  obtain y m d r where t: "t = (y, m, d, r)" by (cases t)
  obtain y' m' d' r' where t': "t' = (y', m', d', r')" by (cases t')
  show ?thesis
  proof
    assume "strftime_date t = strftime_date t'"
    then have eq: "zero_pad 4 y @ CHR ''-'' # (zero_pad 2 m @ CHR ''-'' # zero_pad 2 d) =
                   zero_pad 4 y' @ CHR ''-'' # (zero_pad 2 m' @ CHR ''-'' # zero_pad 2 d')"
      by (simp add: t t')
    from split_at_dash [OF eq zero_pad_no_dash zero_pad_no_dash]
    have y: "zero_pad 4 y = zero_pad 4 y'"
      and rest: "zero_pad 2 m @ CHR ''-'' # zero_pad 2 d = zero_pad 2 m' @ CHR ''-'' # zero_pad 2 d'"
      by simp_all
    from split_at_dash [OF rest zero_pad_no_dash zero_pad_no_dash]
    have m: "zero_pad 2 m = zero_pad 2 m'" and d: "zero_pad 2 d = zero_pad 2 d'"
      by simp_all
    from y have "read_nat (zero_pad 4 y) = read_nat (zero_pad 4 y')" by simp
    moreover from m have "read_nat (zero_pad 2 m) = read_nat (zero_pad 2 m')" by simp
    moreover from d have "read_nat (zero_pad 2 d) = read_nat (zero_pad 2 d')" by simp
    ultimately show "same_day t t'"
      by (simp add: read_nat_zero_pad t t')
  next
    assume "same_day t t'"
    then show "strftime_date t = strftime_date t'"
      by (simp add: t t')
  qed
qed

lemma kpi_path_same_day: "kpi_path t = kpi_path t' \<longleftrightarrow> same_day t t'"
  by (simp add: kpi_path_def strftime_date_same_day)

lemma finite_timestamps_of: "finite (timestamps_of items)"
proof -
  have "timestamps_of items \<subseteq>
        (\<lambda>item. case pickup_datetime item of Datetime t \<Rightarrow> t | _ \<Rightarrow> undefined) ` set items"
    by (force simp: timestamps_of_def)
  then show ?thesis by (rule finite_subset) simp
qed

lemma handler_datetimes_parsed:
  assumes "items \<noteq> []" and "\<forall>item\<in>set items. \<exists>t. pickup_datetime item = Datetime t"
  shows "aggregator_handler fs fm (Some bucket) s3 items =
           (None, foldl (\<lambda>s row. put_object s bucket (kpi_path (kpi_pickup_datetime row)) row) s3
                    (groupby_agg fs fm (zip (map time_of (map pickup_datetime items))
                                      (map (\<lambda>item. to_numeric_coerce (fare_amount item)) items))))"
proof -
  from assms have "to_datetime (map pickup_datetime items) = Inr (map time_of (map pickup_datetime items))"
    by (intro to_datetime_all_parsed) auto
  with assms(1) show ?thesis
    by (simp add: aggregator_handler_def upload_kpis_configured)
qed

lemma handler_unparseable_datetime:
  assumes "items \<noteq> []" and "\<exists>item\<in>set items. pickup_datetime item = Unparseable_datetime"
  shows "aggregator_handler fs fm env s3 items = (Some ValueError, s3)"
proof -
  from assms(2) have "Unparseable_datetime \<in> set (map pickup_datetime items)"
    by force
  then have "to_datetime (map pickup_datetime items) = Inl ValueError"
    by (rule to_datetime_bad)
  with assms(1) show ?thesis
    by (simp add: aggregator_handler_def)
qed

lemma handler_all_parsed:
  assumes "items \<noteq> []"
    and "\<forall>item\<in>set items. (\<exists>t. pickup_datetime item = Datetime t) \<and> (\<exists>x. fare_amount item = Numeric x)"
  shows "aggregator_handler fs fm (Some bucket) s3 items =
           (None, foldl (\<lambda>s row. put_object s bucket (kpi_path (kpi_pickup_datetime row)) row) s3
                    (map (group_kpi fs fm items) (sorted_list_of_set (timestamps_of items))))"
proof -
  from assms(2) have t: "\<forall>item\<in>set items. \<exists>t. pickup_datetime item = Datetime t"
    and f: "\<forall>item\<in>set items. \<exists>x. fare_amount item = Numeric x"
    by auto
  show ?thesis
    by (simp only: handler_datetimes_parsed [OF assms(1) t] groupby_agg_parsed [OF f])
qed

lemma last_sorted_Max:
  fixes ys :: "'a::linorder list"
  assumes "sorted ys" and "ys \<noteq> []"
  shows "last ys = Max (set ys)"
proof -
  have "\<forall>y\<in>set ys. y \<le> last ys"
    using assms
  proof (induction ys)
    case Nil
    then show ?case by simp
  next
    case (Cons a ys)
    show ?case
    proof (cases "ys = []")
      case True
      then show ?thesis by simp
    next
      case False
      with Cons have "\<forall>y\<in>set ys. y \<le> last ys" by simp
      moreover from False have "last ys \<in> set ys" by simp
      with Cons.prems(1) have "a \<le> last ys" by auto
      ultimately show ?thesis using False by simp
    qed
  qed
  moreover from assms(2) have "last ys \<in> set ys" by simp
  ultimately show ?thesis
    by (intro Max_eqI [symmetric]) auto
qed

lemma to_datetime_no_raise:
  assumes "Unparseable_datetime \<notin> set column" and "\<exists>x\<in>set column. x \<noteq> No_datetime"
  shows "to_datetime column = Inr (map time_of column)"
  using assms by (auto simp: to_datetime_def to_datetime_values_ok)

lemma groupby_agg_nan:
  "groupby_agg fs fm (zip (map time_of (map pickup_datetime items))
                    (map (\<lambda>item. to_numeric_coerce (fare_amount item)) items)) =
     map (group_kpi_nan fs fm items) (sorted_list_of_set (timestamps_of items))"
  unfolding groupby_agg_frame group_kpi_nan_def ..

lemma handler_no_raise_frame:
  assumes "items \<noteq> []" and "Unparseable_datetime \<notin> pickup_datetime ` set items"
    and "\<exists>item\<in>set items. pickup_datetime item \<noteq> No_datetime"
  shows "aggregator_handler fs fm (Some bucket) s3 items =
           (None, foldl (\<lambda>s row. put_object s bucket (kpi_path (kpi_pickup_datetime row)) row) s3
                    (groupby_agg fs fm (zip (map time_of (map pickup_datetime items))
                                      (map (\<lambda>item. to_numeric_coerce (fare_amount item)) items))))"
proof -
  from assms(2,3) have "to_datetime (map pickup_datetime items) = Inr (map time_of (map pickup_datetime items))"
    by (intro to_datetime_no_raise) auto
  with assms(1) show ?thesis
    by (simp add: aggregator_handler_def upload_kpis_configured)
qed

lemma handler_no_raise:
  assumes "items \<noteq> []" and "Unparseable_datetime \<notin> pickup_datetime ` set items"
    and "\<exists>item\<in>set items. pickup_datetime item \<noteq> No_datetime"
  shows "aggregator_handler fs fm (Some bucket) s3 items =
           (None, foldl (\<lambda>s row. put_object s bucket (kpi_path (kpi_pickup_datetime row)) row) s3
                    (map (group_kpi_nan fs fm items) (sorted_list_of_set (timestamps_of items))))"
  by (simp only: handler_no_raise_frame [OF assms] groupby_agg_nan)




lemma show_nat_nonempty: "show_nat n \<noteq> []"
  by (simp add: show_nat.simps [of n])




lemma zero_pad_2025: "zero_pad 4 2025 = ''2025''"
  by (simp add: zero_pad_def show_nat.simps [of 2025] show_nat.simps [of 202] show_nat.simps [of 20]
        show_nat.simps [of 2] digit_char_def)

lemma zero_pad_4: "zero_pad 2 4 = ''04''"
  by (simp add: zero_pad_def show_nat.simps [of 4] digit_char_def)

lemma zero_pad_22: "zero_pad 2 22 = ''22''"
  by (simp add: zero_pad_def show_nat.simps [of 22] show_nat.simps [of 2] digit_char_def)



text \<open>
  Claim C4, as amended. For a non-empty list of items, with the bucket configured: when
  \<^verbatim>\<open>pd.to_datetime\<close> rejects no value of the column (and the column exists), the handler
  returns normally whatever the fares are, and a fare that cannot be parsed is NaN in
  the frame: the statistics written for each timestamp are those of the fares of the
  group that do parse (it is not counted, and adds nothing to the sum), the mean, the
  maximum and the minimum being NaN for a group none of whose fares parses. When
  \<^verbatim>\<open>pd.to_datetime\<close> rejects the timestamp of some item, the handler raises, for the
  whole invocation, and nothing is written.
\<close>

theorem fare_coerced_datetime_fatal:
  assumes "items \<noteq> []"
  shows "(Unparseable_datetime \<notin> pickup_datetime ` set items
          \<and> (\<exists>item\<in>set items. pickup_datetime item \<noteq> No_datetime) \<longrightarrow>
            fst (aggregator_handler fs fm (Some bucket) s3 items) = None
            \<and> put_object_calls (snd (aggregator_handler fs fm (Some bucket) s3 items)) =
                put_object_calls s3 @
                map (\<lambda>t. (bucket, kpi_path t, group_kpi_nan fs fm items t))
                  (sorted_list_of_set (timestamps_of items)))
       \<and> ((\<exists>item\<in>set items. pickup_datetime item = Unparseable_datetime) \<longrightarrow>
            aggregator_handler fs fm env s3 items = (Some ValueError, s3))"
proof (intro conjI impI)
  assume a: "Unparseable_datetime \<notin> pickup_datetime ` set items
          \<and> (\<exists>item\<in>set items. pickup_datetime item \<noteq> No_datetime)"
  then have a1: "Unparseable_datetime \<notin> pickup_datetime ` set items"
    and a2: "\<exists>item\<in>set items. pickup_datetime item \<noteq> No_datetime"
    by (rule conjunct1, rule conjunct2)
  show "fst (aggregator_handler fs fm (Some bucket) s3 items) = None"
    by (simp only: handler_no_raise [OF assms a1 a2] fst_conv)
  have "put_object_calls (snd (aggregator_handler fs fm (Some bucket) s3 items)) =
          put_object_calls s3 @
          map (\<lambda>row. (bucket, kpi_path (kpi_pickup_datetime row), row))
            (map (group_kpi_nan fs fm items) (sorted_list_of_set (timestamps_of items)))"
    by (simp only: handler_no_raise [OF assms a1 a2] snd_conv upload_calls)
  then show "put_object_calls (snd (aggregator_handler fs fm (Some bucket) s3 items)) =
                put_object_calls s3 @
                map (\<lambda>t. (bucket, kpi_path t, group_kpi_nan fs fm items t))
                  (sorted_list_of_set (timestamps_of items))"
    by (simp add: group_kpi_nan_def comp_def)
next
  assume "\<exists>item\<in>set items. pickup_datetime item = Unparseable_datetime"
  with assms show "aggregator_handler fs fm env s3 items = (Some ValueError, s3)"
    by (rule handler_unparseable_datetime)
qed

theorem fare_coerced_datetime_fatal_witness:
  "fst (aggregator_handler exact_sum exact_mean (Some ''athena'')
        \<lparr>objects = Map.empty, put_object_calls = []\<rparr>
        [\<lparr>pickup_datetime = Datetime (2025, 4, 22, 8, 30, 0, 0), fare_amount = Non_numeric\<rparr>,
         \<lparr>pickup_datetime = Datetime (2025, 4, 22, 8, 30, 0, 0), fare_amount = Numeric 20\<rparr>,
         \<lparr>pickup_datetime = Datetime (2025, 4, 22, 9, 0, 0, 0), fare_amount = Non_numeric\<rparr>]) = None
   \<and> put_object_calls (snd (aggregator_handler exact_sum exact_mean (Some ''athena'')
        \<lparr>objects = Map.empty, put_object_calls = []\<rparr>
        [\<lparr>pickup_datetime = Datetime (2025, 4, 22, 8, 30, 0, 0), fare_amount = Non_numeric\<rparr>,
         \<lparr>pickup_datetime = Datetime (2025, 4, 22, 8, 30, 0, 0), fare_amount = Numeric 20\<rparr>,
         \<lparr>pickup_datetime = Datetime (2025, 4, 22, 9, 0, 0, 0), fare_amount = Non_numeric\<rparr>])) =
        [(''athena'', ''kpis/date=2025-04-22/kpi.json'',
          \<lparr>kpi_pickup_datetime = (2025, 4, 22, 8, 30, 0, 0), total_fare = 20, count_trips = 1,
           average_fare = Some 20, max_fare = Some 20, min_fare = Some 20\<rparr>),
         (''athena'', ''kpis/date=2025-04-22/kpi.json'',
          \<lparr>kpi_pickup_datetime = (2025, 4, 22, 9, 0, 0, 0), total_fare = 0, count_trips = 0,
           average_fare = None, max_fare = None, min_fare = None\<rparr>)]
   \<and> aggregator_handler exact_sum exact_mean (Some ''athena'')
        \<lparr>objects = Map.empty, put_object_calls = []\<rparr>
        [\<lparr>pickup_datetime = Datetime (2025, 4, 22, 8, 30, 0, 0), fare_amount = Numeric 20\<rparr>,
         \<lparr>pickup_datetime = Unparseable_datetime, fare_amount = Numeric 25\<rparr>] =
       (Some ValueError, \<lparr>objects = Map.empty, put_object_calls = []\<rparr>)"
proof -
  define good where "good =
        [\<lparr>pickup_datetime = Datetime (2025, 4, 22, 8, 30, 0, 0), fare_amount = Non_numeric\<rparr>,
         \<lparr>pickup_datetime = Datetime (2025, 4, 22, 8, 30, 0, 0), fare_amount = Numeric 20\<rparr>,
         \<lparr>pickup_datetime = Datetime (2025, 4, 22, 9, 0, 0, 0), fare_amount = Non_numeric\<rparr>]"
  define bad where "bad =
        [\<lparr>pickup_datetime = Datetime (2025, 4, 22, 8, 30, 0, 0), fare_amount = Numeric 20\<rparr>,
         \<lparr>pickup_datetime = Unparseable_datetime, fare_amount = Numeric 25\<rparr>]"
  define s3 where "s3 = \<lparr>objects = Map.empty, put_object_calls = []\<rparr>"
  have g: "good \<noteq> []" by (simp add: good_def)
  have b: "bad \<noteq> []" by (simp add: bad_def)
  have times: "Unparseable_datetime \<notin> pickup_datetime ` set good
          \<and> (\<exists>item\<in>set good. pickup_datetime item \<noteq> No_datetime)"
    by (simp add: good_def)
  have garbage: "\<exists>item\<in>set bad. pickup_datetime item = Unparseable_datetime"
    by (simp add: bad_def)
  have ts: "timestamps_of good = set [(2025, 4, 22, 8, 30, 0, 0), (2025, 4, 22, 9, 0, 0, 0)]"
    by (auto simp: timestamps_of_def good_def)
  then have keys: "sorted_list_of_set (timestamps_of good) =
      [(2025, 4, 22, 8, 30, 0, 0), (2025, 4, 22, 9, 0, 0, 0)]"
    by (simp only: sorted_list_of_set_sort_remdups) simp
  have g1: "group_fares good (2025, 4, 22, 8, 30, 0, 0) = [20]"
    by (simp add: group_fares_def good_def)
  have g2: "group_fares good (2025, 4, 22, 9, 0, 0, 0) = []"
    by (simp add: group_fares_def good_def)
  have path: "kpi_path (2025, 4, 22, r) = ''kpis/date=2025-04-22/kpi.json''" for r
    by (simp add: kpi_path_def zero_pad_2025 zero_pad_4 zero_pad_22)
  from fare_coerced_datetime_fatal [OF g, of exact_sum exact_mean "''athena''" s3 "Some ''athena''"]
  have "Unparseable_datetime \<notin> pickup_datetime ` set good
          \<and> (\<exists>item\<in>set good. pickup_datetime item \<noteq> No_datetime) \<longrightarrow>
         fst (aggregator_handler exact_sum exact_mean (Some ''athena'') s3 good) = None
         \<and> put_object_calls (snd (aggregator_handler exact_sum exact_mean (Some ''athena'') s3 good)) =
                put_object_calls s3 @
                map (\<lambda>t. (''athena'', kpi_path t, group_kpi_nan exact_sum exact_mean good t))
                  (sorted_list_of_set (timestamps_of good))"
    by (rule conjunct1)
  from this times
  have both: "fst (aggregator_handler exact_sum exact_mean (Some ''athena'') s3 good) = None
         \<and> put_object_calls (snd (aggregator_handler exact_sum exact_mean (Some ''athena'') s3 good)) =
                put_object_calls s3 @
                map (\<lambda>t. (''athena'', kpi_path t, group_kpi_nan exact_sum exact_mean good t))
                  (sorted_list_of_set (timestamps_of good))"
    by (rule mp)
  then have 1: "fst (aggregator_handler exact_sum exact_mean (Some ''athena'') s3 good) = None"
    by (rule conjunct1)
  from both
  have "put_object_calls (snd (aggregator_handler exact_sum exact_mean (Some ''athena'') s3 good)) =
                put_object_calls s3 @
                map (\<lambda>t. (''athena'', kpi_path t, group_kpi_nan exact_sum exact_mean good t))
                  (sorted_list_of_set (timestamps_of good))"
    by (rule conjunct2)
  then have 2: "put_object_calls (snd (aggregator_handler exact_sum exact_mean (Some ''athena'') s3 good)) =
        [(''athena'', ''kpis/date=2025-04-22/kpi.json'',
          \<lparr>kpi_pickup_datetime = (2025, 4, 22, 8, 30, 0, 0), total_fare = 20, count_trips = 1,
           average_fare = Some 20, max_fare = Some 20, min_fare = Some 20\<rparr>),
         (''athena'', ''kpis/date=2025-04-22/kpi.json'',
          \<lparr>kpi_pickup_datetime = (2025, 4, 22, 9, 0, 0, 0), total_fare = 0, count_trips = 0,
           average_fare = None, max_fare = None, min_fare = None\<rparr>)]"
    by (simp add: keys g1 g2 path s3_def group_kpi_nan_def exact_sum_def exact_mean_def)
  from fare_coerced_datetime_fatal [OF b, of exact_sum exact_mean "''athena''" s3 "Some ''athena''"] garbage
  have 3: "aggregator_handler exact_sum exact_mean (Some ''athena'') s3 bad = (Some ValueError, s3)"
    by blast
  from 1 2 3 show ?thesis
    unfolding good_def bad_def s3_def by (intro conjI)
qed

text \<open>
  Claim C4 as stated fails: a \<open>pickup_datetime\<close> that is null or the empty string cannot
  be parsed as a timestamp, and \<^verbatim>\<open>pd.to_datetime\<close> does not raise on it: it gives NaT.
  The invocation does not fail; the item belongs to no group, and the only object
  written is that of the other item.
\<close>

theorem null_datetime_does_not_raise:
  "aggregator_handler exact_sum exact_mean (Some ''athena'')
        \<lparr>objects = Map.empty, put_object_calls = []\<rparr>
        [\<lparr>pickup_datetime = Null_datetime, fare_amount = Numeric 20\<rparr>,
         \<lparr>pickup_datetime = Datetime (2025, 4, 22, 9, 0, 0, 0), fare_amount = Numeric 25\<rparr>] =
     (None,
      \<lparr>objects = [(''athena'', ''kpis/date=2025-04-22/kpi.json'') \<mapsto>
           \<lparr>kpi_pickup_datetime = (2025, 4, 22, 9, 0, 0, 0), total_fare = 25, count_trips = 1,
            average_fare = Some 25, max_fare = Some 25, min_fare = Some 25\<rparr>],
       put_object_calls = [(''athena'', ''kpis/date=2025-04-22/kpi.json'',
           \<lparr>kpi_pickup_datetime = (2025, 4, 22, 9, 0, 0, 0), total_fare = 25, count_trips = 1,
            average_fare = Some 25, max_fare = Some 25, min_fare = Some 25\<rparr>)]\<rparr>)"
  by (simp add: aggregator_handler_def to_datetime_def groupby_agg_def agg_sum_def agg_count_def
        agg_mean_def agg_max_def agg_min_def non_nan_def put_object_def exact_sum_def
        exact_mean_def zero_pad_2025 zero_pad_4 zero_pad_22 Let_def)

text \<open>
  Claim C10. When the items (all parsing, bucket configured) have two distinct
  timestamps on the same calendar day, the groups of both are written to the same path,
  and the object left at that path is the statistics of one timestamp group only: the
  group of the latest timestamp of that day among the items, which is the last written.
\<close>

theorem same_day_groups_share_one_object:
  assumes "items \<noteq> []"
    and "\<forall>item\<in>set items. (\<exists>t. pickup_datetime item = Datetime t) \<and> (\<exists>x. fare_amount item = Numeric x)"
    and "t1 \<in> timestamps_of items" and "t2 \<in> timestamps_of items"
    and "t1 \<noteq> t2" and "same_day t1 t2"
  shows "kpi_path t1 = kpi_path t2
       \<and> (bucket, kpi_path t1, group_kpi fs fm items t1)
            \<in> set (put_object_calls (snd (aggregator_handler fs fm (Some bucket) s3 items)))
       \<and> (bucket, kpi_path t1, group_kpi fs fm items t2)
            \<in> set (put_object_calls (snd (aggregator_handler fs fm (Some bucket) s3 items)))
       \<and> objects (snd (aggregator_handler fs fm (Some bucket) s3 items)) (bucket, kpi_path t1) =
           Some (group_kpi fs fm items (Max {t \<in> timestamps_of items. same_day t t1}))
       \<and> t1 \<le> Max {t \<in> timestamps_of items. same_day t t1}
       \<and> t2 \<le> Max {t \<in> timestamps_of items. same_day t t1}"
proof -
  let ?keys = "sorted_list_of_set (timestamps_of items)"
  let ?day = "{t \<in> timestamps_of items. same_day t t1}"
  let ?s3 = "snd (aggregator_handler fs fm (Some bucket) s3 items)"
  note fin = finite_timestamps_of [of items]
  have path: "kpi_path t1 = kpi_path t2"
    using assms(6) by (simp add: kpi_path_same_day)
  have calls: "put_object_calls ?s3 =
      put_object_calls s3 @ map (\<lambda>row. (bucket, kpi_path (kpi_pickup_datetime row), row))
                              (map (group_kpi fs fm items) ?keys)"
    by (simp add: handler_all_parsed [OF assms(1,2)] upload_calls)
  have stamp: "kpi_pickup_datetime (group_kpi fs fm items t) = t" for t
    by (simp add: group_kpi_def)
  have in_calls: "(bucket, kpi_path t, group_kpi fs fm items t) \<in> set (put_object_calls ?s3)"
    if "t \<in> timestamps_of items" for t
  proof -
    from that fin have "t \<in> set ?keys" by simp
    then have "(bucket, kpi_path (kpi_pickup_datetime (group_kpi fs fm items t)), group_kpi fs fm items t)
        \<in> (\<lambda>row. (bucket, kpi_path (kpi_pickup_datetime row), row)) ` group_kpi fs fm items ` set ?keys"
      by blast
    then show ?thesis by (simp add: calls stamp image_image)
  qed
  have same_sym: "same_day t t1 \<longleftrightarrow> kpi_path t = kpi_path t1" for t
    by (simp add: kpi_path_same_day)
  have filt: "filter (\<lambda>row. kpi_path (kpi_pickup_datetime row) = kpi_path t1) (map (group_kpi fs fm items) ?keys) =
              map (group_kpi fs fm items) (filter (\<lambda>t. same_day t t1) ?keys)"
    by (simp add: filter_map comp_def stamp same_sym)
  have day_set: "set (filter (\<lambda>t. same_day t t1) ?keys) = ?day"
    using fin by auto
  have self: "same_day t1 t1" by (cases t1) simp
  have sym: "same_day t2 t1" using assms(6) by (cases t1; cases t2) auto
  from assms(3) self have "t1 \<in> ?day" by simp
  moreover from assms(4) sym have "t2 \<in> ?day" by simp
  moreover have fin_day: "finite ?day" using fin by simp
  ultimately have le1: "t1 \<le> Max ?day" and le2: "t2 \<le> Max ?day"
    by (simp_all only: Max_ge)
  have ne: "filter (\<lambda>t. same_day t t1) ?keys \<noteq> []"
    using \<open>t1 \<in> ?day\<close> day_set by (metis empty_iff empty_set)
  have "sorted (filter (\<lambda>t. same_day t t1) ?keys)"
    by (simp add: sorted_wrt_filter)
  from last_sorted_Max [OF this ne] day_set
  have last: "last (filter (\<lambda>t. same_day t t1) ?keys) = Max ?day" by simp
  have "objects ?s3 (bucket, kpi_path t1) =
        Some (last (map (group_kpi fs fm items) (filter (\<lambda>t. same_day t t1) ?keys)))"
    using ne by (simp add: handler_all_parsed [OF assms(1,2)] upload_objects filt)
  also have "\<dots> = Some (group_kpi fs fm items (Max ?day))"
    using ne by (simp add: last_map last)
  finally have obj: "objects ?s3 (bucket, kpi_path t1) = Some (group_kpi fs fm items (Max ?day))" .
  from in_calls [OF assms(3)] in_calls [OF assms(4)] path obj le1 le2
  show ?thesis by simp
qed

theorem same_day_groups_share_one_object_witness:
  "objects (snd (aggregator_handler exact_sum exact_mean (Some ''athena'')
       \<lparr>objects = Map.empty, put_object_calls = []\<rparr>
       [\<lparr>pickup_datetime = Datetime (2025, 4, 22, 8, 30, 0, 0), fare_amount = Numeric 20\<rparr>,
        \<lparr>pickup_datetime = Datetime (2025, 4, 22, 9, 0, 0, 0), fare_amount = Numeric 25\<rparr>,
        \<lparr>pickup_datetime = Datetime (2025, 4, 22, 10, 15, 0, 0), fare_amount = Numeric 15\<rparr>]))
     (''athena'', ''kpis/date=2025-04-22/kpi.json'') =
     Some \<lparr>kpi_pickup_datetime = (2025, 4, 22, 10, 15, 0, 0), total_fare = 15, count_trips = 1,
        average_fare = Some 15, max_fare = Some 15, min_fare = Some 15\<rparr>"
proof -
  define items where "items =
       [\<lparr>pickup_datetime = Datetime (2025, 4, 22, 8, 30, 0, 0), fare_amount = Numeric 20\<rparr>,
        \<lparr>pickup_datetime = Datetime (2025, 4, 22, 9, 0, 0, 0), fare_amount = Numeric 25\<rparr>,
        \<lparr>pickup_datetime = Datetime (2025, 4, 22, 10, 15, 0, 0), fare_amount = Numeric 15\<rparr>]"
  define s3 where "s3 = \<lparr>objects = Map.empty, put_object_calls = []\<rparr>"
  define t1 :: timestamp where "t1 = (2025, 4, 22, 8, 30, 0, 0)"
  define t2 :: timestamp where "t2 = (2025, 4, 22, 9, 0, 0, 0)"
  define t3 :: timestamp where "t3 = (2025, 4, 22, 10, 15, 0, 0)"
  have h1: "items \<noteq> []" by (simp add: items_def)
  have h2: "\<forall>item\<in>set items. (\<exists>t. pickup_datetime item = Datetime t) \<and> (\<exists>x. fare_amount item = Numeric x)"
    by (simp add: items_def)
  have ts: "timestamps_of items = {t1, t2, t3}"
    by (auto simp: timestamps_of_def items_def t1_def t2_def t3_def)
  have h3: "t1 \<in> timestamps_of items" and h4: "t2 \<in> timestamps_of items"
    by (simp_all add: ts)
  have h5: "t1 \<noteq> t2" by (simp add: t1_def t2_def)
  have h6: "same_day t1 t2" by (simp add: t1_def t2_def)
  have day: "{t \<in> timestamps_of items. same_day t t1} = {t1, t2, t3}"
    unfolding ts by (auto simp: t1_def t2_def t3_def)
  have mx: "Max {t1, t2, t3} = t3"
    by (simp add: t1_def t2_def t3_def)
  have path: "kpi_path t1 = ''kpis/date=2025-04-22/kpi.json''"
    by (simp add: kpi_path_def t1_def zero_pad_2025 zero_pad_4 zero_pad_22)
  have g3: "group_kpi exact_sum exact_mean items t3 =
      \<lparr>kpi_pickup_datetime = (2025, 4, 22, 10, 15, 0, 0), total_fare = 15, count_trips = 1,
        average_fare = Some 15, max_fare = Some 15, min_fare = Some 15\<rparr>"
    by (simp add: group_kpi_def group_fares_def items_def t3_def exact_sum_def exact_mean_def)
  from same_day_groups_share_one_object [OF h1 h2 h3 h4 h5 h6, of "''athena''" exact_sum exact_mean s3]
  have "objects (snd (aggregator_handler exact_sum exact_mean (Some ''athena'') s3 items)) (''athena'', kpi_path t1) =
           Some (group_kpi exact_sum exact_mean items (Max {t \<in> timestamps_of items. same_day t t1}))"
    by (elim conjE)
  then have "objects (snd (aggregator_handler exact_sum exact_mean (Some ''athena'') s3 items))
       (''athena'', ''kpis/date=2025-04-22/kpi.json'') =
     Some \<lparr>kpi_pickup_datetime = (2025, 4, 22, 10, 15, 0, 0), total_fare = 15, count_trips = 1,
        average_fare = Some 15, max_fare = Some 15, min_fare = Some 15\<rparr>"
    by (simp only: day mx path g3)
  then show ?thesis
    by (simp only: items_def s3_def)
qed

end
